theory Spec2Isabelle
  imports Complex_Main "HOL-Library.Sublist"
begin

section \<open>Text\<close>

text \<open>
  Python \<^verbatim>\<open>str\<close> values are modelled as \<^typ>\<open>string\<close>: the bytes of the UTF-8
  encoding of the text. Substring search and splitting agree with Python on every text,
  because UTF-8 is self-synchronising. \<^verbatim>\<open>strip\<close> removes every character that Python
  counts as white space, in its UTF-8 encoding. \<^verbatim>\<open>upper\<close> and \<^verbatim>\<open>lower\<close> are exact
  in the characters that the tests of the source look at: \<^verbatim>\<open>upper\<close> gives every ASCII
  character that Python's result has (the source tests for \<^verbatim>\<open>SELECT\<close>), \<^verbatim>\<open>lower\<close>
  every small Cyrillic letter of the word the source searches for; characters whose
  image has no such character are left as they are.
\<close>

text \<open>\<^verbatim>\<open>s.split(sep, 1)\<close>: the text before and after the leftmost occurrence of \<open>sep\<close>.\<close>

fun find_sub :: "'a list \<Rightarrow> 'a list \<Rightarrow> ('a list \<times> 'a list) option" where
  "find_sub sep [] = (if sep = [] then Some ([], []) else None)"
| "find_sub sep (c # cs) =
     (if prefix sep (c # cs) then Some ([], drop (length sep) (c # cs))
      else map_option (\<lambda>(a, b). (c # a, b)) (find_sub sep cs))"

definition py_in :: "'a list \<Rightarrow> 'a list \<Rightarrow> bool" where
  "py_in sep s = (find_sub sep s \<noteq> None)"

definition split1 :: "'a list \<Rightarrow> 'a list \<Rightarrow> 'a list list" where
  "split1 sep s = (case find_sub sep s of None \<Rightarrow> [s] | Some (a, b) \<Rightarrow> [a, b])"

definition startswith :: "'a list \<Rightarrow> 'a list \<Rightarrow> bool" where
  "startswith s p = prefix p s"

text \<open>
  \<^verbatim>\<open>str.strip()\<close> removes the characters for which \<^verbatim>\<open>str.isspace()\<close> holds, from both
  ends. Those of one byte are tab, line feed, vertical tab, form feed, carriage return, the
  four separators 0x1C..0x1F and the space; those of two bytes U+0085 and U+00A0
  (\<open>C2 85\<close>, \<open>C2 A0\<close>); those of three bytes U+1680 (\<open>E1 9A 80\<close>), U+2000 to U+200A,
  U+2028, U+2029 and U+202F (\<open>E2 80 80\<close> to \<open>E2 80 8A\<close>, \<open>E2 80 A8\<close>, \<open>E2 80 A9\<close>,
  \<open>E2 80 AF\<close>), U+205F (\<open>E2 81 9F\<close>) and U+3000 (\<open>E3 80 80\<close>).
\<close>

definition is_space :: "char \<Rightarrow> bool" where
  "is_space c = (let n = (of_char c :: nat) in (9 \<le> n \<and> n \<le> 13) \<or> (28 \<le> n \<and> n \<le> 32))"

definition is_space2 :: "char \<Rightarrow> char \<Rightarrow> bool" where
  "is_space2 a b = (a = CHR 0xC2 \<and> (b = CHR 0x85 \<or> b = CHR 0xA0))"

definition is_space3 :: "char \<Rightarrow> char \<Rightarrow> char \<Rightarrow> bool" where
  "is_space3 a b c =
     (let n = (of_char c :: nat) in
        (a = CHR 0xE1 \<and> b = CHR 0x9A \<and> n = 0x80)
      \<or> (a = CHR 0xE2 \<and> b = CHR 0x80 \<and> ((0x80 \<le> n \<and> n \<le> 0x8A) \<or> n = 0xA8 \<or> n = 0xA9 \<or> n = 0xAF))
      \<or> (a = CHR 0xE2 \<and> b = CHR 0x81 \<and> n = 0x9F)
      \<or> (a = CHR 0xE3 \<and> b = CHR 0x80 \<and> n = 0x80))"

text \<open>The number of bytes of the white-space character at the head of a text (0: there is
  none), and of the one at its end, read from the reversed text.\<close>

fun space_len :: "string \<Rightarrow> nat" where
  "space_len (a # b # c # s) =
     (if is_space a then 1 else if is_space2 a b then 2 else if is_space3 a b c then 3 else 0)"
| "space_len [a, b] = (if is_space a then 1 else if is_space2 a b then 2 else 0)"
| "space_len [a] = (if is_space a then 1 else 0)"
| "space_len [] = 0"

fun space_len_end :: "string \<Rightarrow> nat" where
  "space_len_end (c # b # a # s) =
     (if is_space c then 1 else if is_space2 b c then 2 else if is_space3 a b c then 3 else 0)"
| "space_len_end [c, b] = (if is_space c then 1 else if is_space2 b c then 2 else 0)"
| "space_len_end [c] = (if is_space c then 1 else 0)"
| "space_len_end [] = 0"

function skip :: "(string \<Rightarrow> nat) \<Rightarrow> string \<Rightarrow> string" where
  "skip len s = (if 0 < len s \<and> len s \<le> length s then skip len (drop (len s) s) else s)"
  by pat_completeness auto
termination
  by (relation "measure (\<lambda>(len, s). length s)") auto

declare skip.simps [simp del]

definition strip :: "string \<Rightarrow> string" where
  "strip s = rev (skip space_len_end (rev (skip space_len s)))"

text \<open>
  \<^verbatim>\<open>str.upper()\<close> maps every character by itself. On ASCII it turns the small letters
  into capitals. Seventeen other characters have an image with an ASCII letter in it,
  listed below with the UTF-8 bytes of the character and of its image: U+00DF (SS),
  U+0131 (I), U+0149 (U+02BC N), U+017F (S), U+01F0 (J U+030C), U+1E96 (H U+0331),
  U+1E97 (T U+0308), U+1E98 (W U+030A), U+1E99 (Y U+030A), U+1E9A (A U+02BE) and the
  ligatures U+FB00 to U+FB06 (FF, FI, FL, FFI, FFL, ST, ST). The image of every other
  character has no ASCII character; such a character is left as it is.
\<close>

definition upper_char :: "char \<Rightarrow> char" where
  "upper_char c = (let n = (of_char c :: nat) in if 97 \<le> n \<and> n \<le> 122 then char_of (n - 32) else c)"

definition upper_special :: "(string \<times> string) list" where
  "upper_special =
     [([CHR 0xC3, CHR 0x9F], ''SS''), ([CHR 0xC4, CHR 0xB1], ''I''), ([CHR 0xC5, CHR 0x89], [CHR 0xCA, CHR 0xBC] @ ''N''), ([CHR 0xC5, CHR 0xBF], ''S''), ([CHR 0xC7, CHR 0xB0], ''J'' @ [CHR 0xCC, CHR 0x8C]),
      ([CHR 0xE1, CHR 0xBA, CHR 0x96], ''H'' @ [CHR 0xCC, CHR 0xB1]), ([CHR 0xE1, CHR 0xBA, CHR 0x97], ''T'' @ [CHR 0xCC, CHR 0x88]), ([CHR 0xE1, CHR 0xBA, CHR 0x98], ''W'' @ [CHR 0xCC, CHR 0x8A]), ([CHR 0xE1, CHR 0xBA, CHR 0x99], ''Y'' @ [CHR 0xCC, CHR 0x8A]), ([CHR 0xE1, CHR 0xBA, CHR 0x9A], ''A'' @ [CHR 0xCA, CHR 0xBE]),
      ([CHR 0xEF, CHR 0xAC, CHR 0x80], ''FF''), ([CHR 0xEF, CHR 0xAC, CHR 0x81], ''FI''), ([CHR 0xEF, CHR 0xAC, CHR 0x82], ''FL''), ([CHR 0xEF, CHR 0xAC, CHR 0x83], ''FFI''), ([CHR 0xEF, CHR 0xAC, CHR 0x84], ''FFL''),
      ([CHR 0xEF, CHR 0xAC, CHR 0x85], ''ST''), ([CHR 0xEF, CHR 0xAC, CHR 0x86], ''ST'')]"

text \<open>In the recursive call \<open>k\<close> is not empty and a prefix of \<open>a # s\<close>: the call is on
  the text after \<open>k\<close>.\<close>

function upper :: "string \<Rightarrow> string" where
  "upper [] = []"
| "upper (a # s) =
     (case find (\<lambda>(k, v). prefix k (a # s)) upper_special of
        Some (k, v) \<Rightarrow> v @ upper (drop (length k - 1) s)
      | None \<Rightarrow> upper_char a # upper s)"
  by pat_completeness auto
termination
  by (relation "measure length") auto

section \<open>Query extraction and validation\<close>

text \<open>
  \<^verbatim>\<open>table_file_answer.py\<close>, default mode and \<^verbatim>\<open>--sql-only\<close> mode:
  \<^verbatim>\<open>
  if "```sql" in sql_response and "```" in sql_response.split("```sql", 1)[1]:
      sql_query = sql_response.split("```sql", 1)[1].split("```", 1)[0].strip()
  elif "```" in sql_response and "```" in sql_response.split("```", 1)[1]:
      sql_query = sql_response.split("```", 1)[1].split("```", 1)[0].strip()
  else:
      sql_query = sql_response.strip()
  \<close>
  The two indexings are guarded by the \<^verbatim>\<open>in\<close> tests before them.
\<close>

definition extract_sql_query :: "string \<Rightarrow> string" where
  "extract_sql_query sql_response =
     (if py_in ''```sql'' sql_response \<and> py_in ''```'' (split1 ''```sql'' sql_response ! 1)
      then strip (split1 ''```'' (split1 ''```sql'' sql_response ! 1) ! 0)
      else if py_in ''```'' sql_response \<and> py_in ''```'' (split1 ''```'' sql_response ! 1)
      then strip (split1 ''```'' (split1 ''```'' sql_response ! 1) ! 0)
      else strip sql_response)"

text \<open>
  \<^verbatim>\<open>answer.py\<close> and \<^verbatim>\<open>answer2.py\<close> have the same two branches and no
  \<^verbatim>\<open>else\<close>: an unfenced response stays as the model returned it.
\<close>

definition extract_gpt_sql :: "string \<Rightarrow> string" where
  "extract_gpt_sql gpt_sql =
     (if py_in ''```sql'' gpt_sql \<and> py_in ''```'' (split1 ''```sql'' gpt_sql ! 1)
      then strip (split1 ''```'' (split1 ''```sql'' gpt_sql ! 1) ! 0)
      else if py_in ''```'' gpt_sql \<and> py_in ''```'' (split1 ''```'' gpt_sql ! 1)
      then strip (split1 ''```'' (split1 ''```'' gpt_sql ! 1) ! 0)
      else gpt_sql)"

text \<open>\<^verbatim>\<open>sql_query.upper().startswith("SELECT")\<close>\<close>

definition is_select :: "string \<Rightarrow> bool" where
  "is_select sql_query = startswith (upper sql_query) ''SELECT''"

text \<open>The three shapes of a response that carries the query \<open>q\<close>.\<close>

definition fenced_tagged :: "string \<Rightarrow> string \<Rightarrow> string" where
  "fenced_tagged tag q = ''```'' @ tag @ ''\<newline>'' @ q @ ''\<newline>```''"

definition fenced :: "string \<Rightarrow> string" where
  "fenced q = ''```\<newline>'' @ q @ ''\<newline>```''"

section \<open>Bounded execution: the drain loop\<close>

text \<open>
  \<^verbatim>\<open>table_file_answer.py\<close>, default mode (and the same loop in \<^verbatim>\<open>--execute-sql\<close> mode):
  \<^verbatim>\<open>
  BATCH_SIZE = 1000
  all_results = []
  while True:
      batch = cursor.fetchmany(BATCH_SIZE)
      if not batch:
          break
      all_results.extend([dict(zip(columns_desc, row)) for row in batch])
      elapsed = time.time() - start_time
      if elapsed > args.timeout:
          break
  query_result = all_results
  \<close>
  The cursor is the list of rows not yet fetched. The clock is read once before the
  query runs and once after every non-empty batch: \<open>now 0\<close> is \<^verbatim>\<open>start_time\<close> and
  \<open>now j\<close> the reading after the \<open>j\<close>-th batch. \<open>k\<close> counts the calls of
  \<^verbatim>\<open>fetchmany\<close> made so far; the loop returns the collected rows and the number of calls.
\<close>

definition BATCH_SIZE :: nat where
  "BATCH_SIZE = 1000"

text \<open>\<^verbatim>\<open>dict(zip(columns, row))\<close>: of two columns with one name the later one wins.\<close>

definition row_dict :: "string list \<Rightarrow> 'v list \<Rightarrow> (string \<rightharpoonup> 'v)" where
  "row_dict columns row = map_of (rev (zip columns row))"

function drain :: "string list \<Rightarrow> (nat \<Rightarrow> real) \<Rightarrow> int \<Rightarrow> nat \<Rightarrow> 'v list list
    \<Rightarrow> (string \<rightharpoonup> 'v) list \<Rightarrow> (string \<rightharpoonup> 'v) list \<times> nat" where
  "drain columns now timeout k cursor all_results =
     (let batch = take BATCH_SIZE cursor in
      if batch = [] then (all_results, Suc k)
      else
        let all_results' = all_results @ map (row_dict columns) batch;
            elapsed = now (Suc k) - now 0
        in if elapsed > of_int timeout then (all_results', Suc k)
           else drain columns now timeout (Suc k) (drop BATCH_SIZE cursor) all_results')"
  by pat_completeness auto
termination
  by (relation "measure (\<lambda>(columns, now, timeout, k, cursor, all_results). length cursor)")
     (auto simp: BATCH_SIZE_def)

declare drain.simps [simp del]

section \<open>Ingestion: sheets into one relation\<close>

text \<open>
  A pandas \<^verbatim>\<open>DataFrame\<close> is its list of column names and its rows, each row a list of
  cells aligned with the columns. \<open>NaN\<close> is the missing value that
  \<^verbatim>\<open>pd.concat\<close> fills in. A frame is well formed when every row has one cell per column.
\<close>

datatype cell = NaN | Str string | Num int

record dataframe =
  df_columns :: "string list"
  df_rows :: "cell list list"

definition wf_frame :: "dataframe \<Rightarrow> bool" where
  "wf_frame df = (\<forall>r \<in> set (df_rows df). length r = length (df_columns df))"

text \<open>The cell of row \<open>r\<close> in column \<open>c\<close> (missing: \<open>NaN\<close>), and a whole column.\<close>

definition cell_at :: "string list \<Rightarrow> cell list \<Rightarrow> string \<Rightarrow> cell" where
  "cell_at cols r c = (case map_of (zip cols r) c of Some v \<Rightarrow> v | None \<Rightarrow> NaN)"

definition column_values :: "dataframe \<Rightarrow> string \<Rightarrow> cell list" where
  "column_values df c = map (\<lambda>r. cell_at (df_columns df) r c) (df_rows df)"

text \<open>\<^verbatim>\<open>df_sheet[c] = v\<close> with a scalar \<open>v\<close>: an existing column \<open>c\<close> is overwritten,
  otherwise the column is added last.\<close>

definition set_column :: "string \<Rightarrow> cell \<Rightarrow> dataframe \<Rightarrow> dataframe" where
  "set_column c v df =
     (if c \<in> set (df_columns df)
      then df\<lparr>df_rows := map (\<lambda>r. map (\<lambda>(n, x). if n = c then v else x) (zip (df_columns df) r)) (df_rows df)\<rparr>
      else df\<lparr>df_columns := df_columns df @ [c], df_rows := map (\<lambda>r. r @ [v]) (df_rows df)\<rparr>)"

text \<open>\<^verbatim>\<open>pd.concat(all_dfs, ignore_index=True)\<close>: the columns are the union of the
  frames' columns in the order of first appearance, the rows follow frame by frame, and a
  cell of a column the frame lacks is \<open>NaN\<close>.\<close>

fun uniq :: "'a list \<Rightarrow> 'a list \<Rightarrow> 'a list" where
  "uniq seen [] = []"
| "uniq seen (x # xs) = (if x \<in> set seen then uniq seen xs else x # uniq (x # seen) xs)"

definition reindex :: "string list \<Rightarrow> dataframe \<Rightarrow> cell list \<Rightarrow> cell list" where
  "reindex cols df r = map (cell_at (df_columns df) r) cols"

definition concat_frames :: "dataframe list \<Rightarrow> dataframe" where
  "concat_frames dfs =
     (let cols = uniq [] (concat (map df_columns dfs))
      in \<lparr>df_columns = cols, df_rows = concat (map (\<lambda>df. map (reindex cols df) (df_rows df)) dfs)\<rparr>)"

text \<open>
  Reading a sheet. The results of the successive calls of \<^verbatim>\<open>pd.read_excel\<close> on one
  sheet are a list (\<open>None\<close>: the call raised). \<^verbatim>\<open>answer.py\<close> calls once;
  \<^verbatim>\<open>table_file_answer.py\<close> makes up to three attempts, each a call with the default
  engine and, when that raises, a call with \<^verbatim>\<open>engine='openpyxl'\<close>.
\<close>

fun read_once :: "dataframe option list \<Rightarrow> dataframe option" where
  "read_once [] = None"
| "read_once (r # outs) = r"

fun read_with_retry :: "nat \<Rightarrow> dataframe option list \<Rightarrow> dataframe option" where
  "read_with_retry 0 outs = None"
| "read_with_retry (Suc n) [] = None"
| "read_with_retry (Suc n) (Some df # outs) = Some df"
| "read_with_retry (Suc n) [None] = None"
| "read_with_retry (Suc n) (None # Some df # outs) = Some df"
| "read_with_retry (Suc n) (None # None # outs) = read_with_retry n outs"

text \<open>
  \<^verbatim>\<open>
  all_dfs = []
  for sheet_name in sheet_names:
      df_sheet = pd.read_excel(args.file_path, sheet_name=sheet_name)
      df_sheet['_sheet_name'] = sheet_name
      all_dfs.append(df_sheet)
  if len(all_dfs) > 1:
      df = pd.concat(all_dfs, ignore_index=True)
  else:
      df = all_dfs[0]
  \<close>
  \<open>None\<close> is an exception: a sheet that cannot be read, or \<^verbatim>\<open>all_dfs[0]\<close> on a
  workbook without sheets.
\<close>

fun read_sheets :: "(dataframe option list \<Rightarrow> dataframe option) \<Rightarrow> (string \<times> dataframe option list) list
    \<Rightarrow> dataframe list option" where
  "read_sheets rd [] = Some []"
| "read_sheets rd ((sheet_name, outs) # rest) =
     (case rd outs of
        None \<Rightarrow> None
      | Some df_sheet \<Rightarrow>
          (case read_sheets rd rest of
             None \<Rightarrow> None
           | Some all_dfs \<Rightarrow> Some (set_column ''_sheet_name'' (Str sheet_name) df_sheet # all_dfs)))"

definition build_dataframe :: "(dataframe option list \<Rightarrow> dataframe option)
    \<Rightarrow> (string \<times> dataframe option list) list \<Rightarrow> dataframe option" where
  "build_dataframe rd workbook =
     (case read_sheets rd workbook of
        None \<Rightarrow> None
      | Some all_dfs \<Rightarrow>
          if length all_dfs > 1 then Some (concat_frames all_dfs)
          else (case all_dfs of [] \<Rightarrow> None | df # _ \<Rightarrow> Some df))"

section \<open>Fingerprint, cache and staging store\<close>

text \<open>
  \<^verbatim>\<open>
  db_file = f"temp_db_{os.path.basename(args.file_path).replace('.', '_')}.sqlite"
  file_hash = get_file_hash(args.file_path)
  cache_key = f"{file_hash}_{db_file}"
  \<close>
  The store's file name comes from the base name of the path (the text after the last
  slash), the cache key from the fingerprint and that name.
\<close>

definition basename :: "string \<Rightarrow> string" where
  "basename p = rev (takeWhile (\<lambda>c. c \<noteq> CHR ''/'') (rev p))"

definition replace_char :: "char \<Rightarrow> char \<Rightarrow> string \<Rightarrow> string" where
  "replace_char a b s = map (\<lambda>c. if c = a then b else c) s"

definition db_file_of :: "string \<Rightarrow> string" where
  "db_file_of file_path = ''temp_db_'' @ replace_char CHR ''.'' CHR ''_'' (basename file_path) @ ''.sqlite''"

definition cache_key_of :: "string \<Rightarrow> string \<Rightarrow> string" where
  "cache_key_of file_hash db_file = file_hash @ ''_'' @ db_file"

text \<open>
  \<^verbatim>\<open>
  def get_file_hash(file_path):
      h = hashlib.md5()
      with open(file_path, 'rb') as file:
          for chunk in iter(lambda: file.read(4096), b''):
              h.update(chunk)
      return h.hexdigest()
  \<close>
  The hash object is the bytes fed to it so far. MD5 itself belongs to the Python
  library: \<open>digest\<close> stands for the function from all the bytes fed to the hexadecimal
  digest.
\<close>

function chunks :: "nat \<Rightarrow> 'a list \<Rightarrow> 'a list list" where
  "chunks n xs = (if n = 0 \<or> xs = [] then [] else take n xs # chunks n (drop n xs))"
  by pat_completeness auto
termination
  by (relation "measure (\<lambda>(n, xs). length xs)") auto

declare chunks.simps [simp del]

definition get_file_hash :: "(string \<Rightarrow> string) \<Rightarrow> string \<Rightarrow> string" where
  "get_file_hash digest content = digest (foldl (\<lambda>h chunk. h @ chunk) [] (chunks 4096 content))"

text \<open>
  What the scripts read and write outside themselves: the files by path, the SQLite files
  by name (each the relation its table \<^verbatim>\<open>data\<close> holds), the dictionary
  \<^verbatim>\<open>file_cache\<close> of the running process, and the number of calls of \<^verbatim>\<open>to_sql\<close> made.
  \<^verbatim>\<open>file_cache\<close> is a global of the script, so every run of the script starts with an
  empty one. A table has at least one column, so the frame without columns stands for an
  SQLite file that holds no table \<^verbatim>\<open>data\<close>.
\<close>

record world =
  files :: "string \<rightharpoonup> string"
  db_files :: "string \<rightharpoonup> dataframe"
  file_cache :: "string \<rightharpoonup> dataframe \<times> string list"
  to_sql_calls :: nat

definition empty_world :: world where
  "empty_world = \<lparr>files = Map.empty, db_files = Map.empty, file_cache = Map.empty, to_sql_calls = 0\<rparr>"

definition new_process :: "world \<Rightarrow> world" where
  "new_process w = w\<lparr>file_cache := Map.empty\<rparr>"

definition file_hash_at :: "(string \<Rightarrow> string) \<Rightarrow> world \<Rightarrow> string \<Rightarrow> string option" where
  "file_hash_at digest w file_path = map_option (get_file_hash digest) (files w file_path)"

text \<open>
  Steps 1 and 2 of \<^verbatim>\<open>main\<close>, the same in \<^verbatim>\<open>answer.py\<close> and
  \<^verbatim>\<open>table_file_answer.py\<close> but for the reading of a sheet and the writing of the table:
  \<^verbatim>\<open>
  if args.cache and cache_key in file_cache and os.path.exists(db_file):
      df = file_cache[cache_key]['dataframe']
      sheet_names = file_cache[cache_key]['sheets']
  else:
      try:
          ... read the sheets into df ...
          if args.cache:
              file_cache[cache_key] = {'dataframe': df, 'sheets': sheet_names}
      except Exception as e:
          sys.exit(1)
  try:
      if not args.cache or not os.path.exists(db_file):
          conn = sqlite3.connect(db_file)
          df.to_sql(table_name, conn, if_exists='replace', index=False)
      else:
          conn = sqlite3.connect(db_file)
  except Exception as e:
      sys.exit(1)
  \<close>
  The workbook is what pandas reads from the file now (\<open>None\<close>: \<^verbatim>\<open>pd.ExcelFile\<close>
  raises). What SQLite does is the answer \<open>db\<close>:
  \<^item> \<open>DbOk\<close>: connecting and writing succeed;
  \<^item> \<open>ConnectFails\<close>: \<^verbatim>\<open>sqlite3.connect\<close> raises, and no file is created;
  \<^item> \<open>WriteFails left n\<close>: \<^verbatim>\<open>sqlite3.connect\<close> opens the file, creating it if there is none,
    and the \<open>n\<close>-th call of \<^verbatim>\<open>to_sql\<close> raises, leaving the file with the table \<open>left\<close>
    (the frame without columns: with no table). When nothing is written, nothing fails.

  The result is the frame and the sheet names, or the error that ends the run, with the
  world as the run leaves it.
\<close>

datatype db_answer = DbOk | ConnectFails | WriteFails dataframe nat

datatype script = AnswerPy | TableFileAnswerPy

datatype error = FileNotFound | IngestionError | StagingError | SchemaError

fun reader :: "script \<Rightarrow> dataframe option list \<Rightarrow> dataframe option" where
  "reader AnswerPy = read_once"
| "reader TableFileAnswerPy = read_with_retry 3"

fun load_dataframe :: "script \<Rightarrow> bool \<Rightarrow> string \<Rightarrow> string \<Rightarrow> (string \<times> dataframe option list) list option
    \<Rightarrow> world \<Rightarrow> (dataframe \<times> string list) option \<times> world" where
  "load_dataframe s cache cache_key db_file workbook w =
     (if cache \<and> cache_key \<in> dom (file_cache w) \<and> db_file \<in> dom (db_files w)
      then (file_cache w cache_key, w)
      else
        (case workbook of
           None \<Rightarrow> (None, w)
         | Some wb \<Rightarrow>
             (case build_dataframe (reader s) wb of
                None \<Rightarrow> (None, w)
              | Some df \<Rightarrow>
                  (Some (df, map fst wb),
                   if cache then w\<lparr>file_cache := (file_cache w)(cache_key \<mapsto> (df, map fst wb))\<rparr> else w))))"

definition to_sql_replace :: "string \<Rightarrow> dataframe \<Rightarrow> world \<Rightarrow> world" where
  "to_sql_replace db_file df w =
     w\<lparr>db_files := (db_files w)(db_file \<mapsto> df), to_sql_calls := Suc (to_sql_calls w)\<rparr>"

definition to_sql_append :: "string \<Rightarrow> dataframe \<Rightarrow> world \<Rightarrow> world" where
  "to_sql_append db_file chunk w =
     w\<lparr>db_files := (db_files w)(db_file \<mapsto>
          (case db_files w db_file of
             None \<Rightarrow> chunk
           | Some t \<Rightarrow> t\<lparr>df_rows := df_rows t @ df_rows chunk\<rparr>)),
       to_sql_calls := Suc (to_sql_calls w)\<rparr>"

text \<open>
  \<^verbatim>\<open>table_file_answer.py\<close> writes a frame of more than 5000 rows in chunks:
  \<^verbatim>\<open>
  chunk_size = 5000
  if len(df) > chunk_size:
      for i in range(0, len(df), chunk_size):
          chunk = df.iloc[i:i + chunk_size]
          if i == 0:
              chunk.to_sql(table_name, conn, if_exists='replace', index=False)
          else:
              chunk.to_sql(table_name, conn, if_exists='append', index=False)
  else:
      df.to_sql(table_name, conn, if_exists='replace', index=False)
  \<close>
\<close>

definition chunk_size :: nat where
  "chunk_size = 5000"

function append_chunks :: "string \<Rightarrow> string list \<Rightarrow> cell list list \<Rightarrow> world \<Rightarrow> world" where
  "append_chunks db_file cols rest w =
     (if rest = [] then w
      else append_chunks db_file cols (drop chunk_size rest)
             (to_sql_append db_file \<lparr>df_columns = cols, df_rows = take chunk_size rest\<rparr> w))"
  by pat_completeness auto
termination
  by (relation "measure (\<lambda>(db_file, cols, rest, w). length rest)") (auto simp: chunk_size_def)

declare append_chunks.simps [simp del]

fun write_table :: "script \<Rightarrow> string \<Rightarrow> dataframe \<Rightarrow> world \<Rightarrow> world" where
  "write_table AnswerPy db_file df w = to_sql_replace db_file df w"
| "write_table TableFileAnswerPy db_file df w =
     (if length (df_rows df) > chunk_size
      then append_chunks db_file (df_columns df) (drop chunk_size (df_rows df))
             (to_sql_replace db_file (df\<lparr>df_rows := take chunk_size (df_rows df)\<rparr>) w)
      else to_sql_replace db_file df w)"

fun import_sqlite :: "script \<Rightarrow> bool \<Rightarrow> string \<Rightarrow> db_answer \<Rightarrow> dataframe \<Rightarrow> world \<Rightarrow> bool \<times> world" where
  "import_sqlite s cache db_file ConnectFails df w = (False, w)"
| "import_sqlite s cache db_file DbOk df w =
     (if \<not> cache \<or> db_file \<notin> dom (db_files w) then (True, write_table s db_file df w)
      else (True, w))"
| "import_sqlite s cache db_file (WriteFails left n) df w =
     (if \<not> cache \<or> db_file \<notin> dom (db_files w)
      then (False, w\<lparr>db_files := (db_files w)(db_file \<mapsto> left), to_sql_calls := to_sql_calls w + n\<rparr>)
      else (True, w))"

fun stage :: "script \<Rightarrow> bool \<Rightarrow> string \<Rightarrow> string \<Rightarrow> (string \<times> dataframe option list) list option
    \<Rightarrow> db_answer \<Rightarrow> world \<Rightarrow> (error + dataframe \<times> string list) \<times> world" where
  "stage s cache file_path file_hash workbook db w =
     (let db_file = db_file_of file_path;
          cache_key = cache_key_of file_hash db_file
      in case load_dataframe s cache cache_key db_file workbook w of
           (None, w1) \<Rightarrow> (Inl IngestionError, w1)
         | (Some (df, sheet_names), w1) \<Rightarrow>
             (case import_sqlite s cache db_file db df w1 of
                (False, w2) \<Rightarrow> (Inl StagingError, w2)
              | (True, w2) \<Rightarrow> (Inr (df, sheet_names), w2)))"

text \<open>Example inputs of the closed theorems: a one-sheet workbook before and after a
  change of its only cell, a workbook before and after it gains a row and a second sheet,
  a file system with the same bytes under two paths of one base name, and one with the
  same bytes under two base names that give one store name.\<close>

definition sheet_v1 :: "(string \<times> dataframe option list) list" where
  "sheet_v1 = [(''S'', [Some \<lparr>df_columns = [''v''], df_rows = [[Num 1]]\<rparr>])]"

definition sheet_v2 :: "(string \<times> dataframe option list) list" where
  "sheet_v2 = [(''S'', [Some \<lparr>df_columns = [''v''], df_rows = [[Num 2]]\<rparr>])]"

definition two_copies :: world where
  "two_copies = empty_world\<lparr>files := [''/tmp/a/data.xlsx'' \<mapsto> ''PK-bytes'', ''/tmp/b/data.xlsx'' \<mapsto> ''PK-bytes'']\<rparr>"

definition book_v1 :: "(string \<times> dataframe option list) list" where
  "book_v1 = [(''A'', [Some \<lparr>df_columns = [''id''], df_rows = [[Num 1]]\<rparr>])]"

definition book_v2 :: "(string \<times> dataframe option list) list" where
  "book_v2 = [(''A'', [Some \<lparr>df_columns = [''id''], df_rows = [[Num 1], [Num 2]]\<rparr>]),
              (''B'', [Some \<lparr>df_columns = [''id''], df_rows = [[Num 3]]\<rparr>])]"

definition two_names :: world where
  "two_names = empty_world\<lparr>files := [''/tmp/a/data.xlsx'' \<mapsto> ''PK-bytes'', ''/tmp/b/data_xlsx'' \<mapsto> ''PK-bytes'']\<rparr>"

section \<open>More text functions\<close>

text \<open>\<^verbatim>\<open>s.split(sep)\<close>: all the pieces between the occurrences of \<open>sep\<close>, found from the
  left without overlap (\<open>cur\<close> is the piece being read, reversed). Python raises on an
  empty separator; the source never passes one.\<close>

function split_all :: "'a list \<Rightarrow> 'a list \<Rightarrow> 'a list \<Rightarrow> 'a list list" where
  "split_all sep cur [] = [rev cur]"
| "split_all sep cur (c # cs) =
     (if sep \<noteq> [] \<and> prefix sep (c # cs)
      then rev cur # split_all sep [] (drop (length sep) (c # cs))
      else split_all sep (c # cur) cs)"
  by pat_completeness auto
termination
  by (relation "measure (\<lambda>(sep, cur, s). length s)") auto

definition split :: "'a list \<Rightarrow> 'a list \<Rightarrow> 'a list list" where
  "split s sep = split_all sep [] s"

text \<open>\<^verbatim>\<open>sep.join(xs)\<close>\<close>

fun join :: "'a list \<Rightarrow> 'a list list \<Rightarrow> 'a list" where
  "join sep [] = []"
| "join sep [x] = x"
| "join sep (x # y # ys) = x @ sep @ join sep (y # ys)"

text \<open>\<^verbatim>\<open>s.lower()\<close> on UTF-8 bytes: the ASCII capitals, and the Cyrillic capitals
  U+0400 to U+042F, whose two-byte encodings start with the byte \<open>0xD0\<close>.\<close>

definition lower_ascii :: "char \<Rightarrow> char" where
  "lower_ascii c = (let n = (of_char c :: nat) in if 65 \<le> n \<and> n \<le> 90 then char_of (n + 32) else c)"

fun lower :: "string \<Rightarrow> string" where
  "lower [] = []"
| "lower [c] = [lower_ascii c]"
| "lower (c # d # cs) =
     (let n = (of_char d :: nat) in
      if c = CHR 0xD0 \<and> 0x90 \<le> n \<and> n \<le> 0x9F then c # char_of (n + 0x20) # lower cs
      else if c = CHR 0xD0 \<and> 0xA0 \<le> n \<and> n \<le> 0xAF then CHR 0xD1 # char_of (n - 0x20) # lower cs
      else if c = CHR 0xD0 \<and> 0x80 \<le> n \<and> n \<le> 0x8F then CHR 0xD1 # char_of (n + 0x10) # lower cs
      else lower_ascii c # lower (d # cs))"

text \<open>The two quote characters.\<close>

definition dquote :: string where
  "dquote = [CHR 0x22]"

definition squote :: string where
  "squote = [CHR 0x27]"

section \<open>Prompts of \<^verbatim>\<open>table_file_answer.py\<close>\<close>

text \<open>
  The prompts are f-strings of Russian sentences around the interpolated values. The
  sentences do not matter to what is proved, so they are the fields of a record: a
  prompt is built from a \<open>wording\<close> exactly as the f-string builds it from its literal
  parts.
  \<^item> \<open>w_using\<close>, \<open>w_table\<close>, \<open>w_request\<close>, \<open>w_schema\<close>, \<open>w_sample\<close>: the labels before the
    selected columns, the table name, the user's request, the schema and the sample rows
    in \<^verbatim>\<open>sql_prompt\<close>;
  \<^item> \<open>w_rules_sql_only\<close>, \<open>w_rules_default\<close>: the closing instructions of \<^verbatim>\<open>sql_prompt\<close> in
    \<^verbatim>\<open>--sql-only\<close> mode and in the default mode;
  \<^item> \<open>w_sheet_a\<close>, \<open>w_sheet_b\<close>, \<open>w_sheet_c\<close>: the sentences of the hint on the column
    \<^verbatim>\<open>_sheet_name\<close>;
  \<^item> \<open>w_date_a\<close>, \<open>w_date_b\<close>: the first sentence of \<^verbatim>\<open>date_hint\<close> up to the list of the
    date columns, and the five lines after that list.
\<close>

record wording =
  w_using :: string
  w_table :: string
  w_request :: string
  w_schema :: string
  w_sample :: string
  w_rules_sql_only :: string
  w_rules_default :: string
  w_sheet_a :: string
  w_sheet_b :: string
  w_sheet_c :: string
  w_date_a :: string
  w_date_b :: string

text \<open>
  \<^verbatim>\<open>
  def generate_sql_for_date_filters(sql_prompt, schema_str):
      date_columns = []
      for line in schema_str.split('\n'):
          if '(TIMESTAMP)' in line or 'Date' in line or <data> in line.lower() or <Data> in line:
              col_name = line.split(' - ')[1].split(' (')[0]
              date_columns.append(col_name)
      if date_columns:
          date_hint = f"""
  - <w_date_a>{', '.join([f'"{col}"' for col in date_columns])}
  <w_date_b>"""
          return sql_prompt + date_hint
      return sql_prompt
  \<close>
  \<^verbatim>\<open><data>\<close> and \<^verbatim>\<open><Data>\<close> are the Russian word for date, in small letters and with a
  capital: the bytes below. A line that matches but holds no \<^verbatim>\<open>' - '\<close> makes
  \<^verbatim>\<open>[1]\<close> raise \<^verbatim>\<open>IndexError\<close>.
\<close>

definition data_lower :: string where
  "data_lower = [CHR 0xD0, CHR 0xB4, CHR 0xD0, CHR 0xB0, CHR 0xD1, CHR 0x82, CHR 0xD0, CHR 0xB0]"

definition data_capital :: string where
  "data_capital = [CHR 0xD0, CHR 0x94, CHR 0xD0, CHR 0xB0, CHR 0xD1, CHR 0x82, CHR 0xD0, CHR 0xB0]"

datatype py_error = IndexError | KeyError

definition is_date_line :: "string \<Rightarrow> bool" where
  "is_date_line line =
     (py_in ''(TIMESTAMP)'' line \<or> py_in ''Date'' line \<or> py_in data_lower (lower line)
      \<or> py_in data_capital line)"

fun date_columns_of :: "string list \<Rightarrow> py_error + string list" where
  "date_columns_of [] = Inr []"
| "date_columns_of (line # rest) =
     (if is_date_line line
      then (case split line '' - '' of
              p0 # p1 # ps \<Rightarrow>
                (case date_columns_of rest of
                   Inl e \<Rightarrow> Inl e
                 | Inr date_columns \<Rightarrow> Inr (hd (split p1 '' ('') # date_columns))
            | _ \<Rightarrow> Inl IndexError)
      else date_columns_of rest)"

definition date_hint :: "wording \<Rightarrow> string list \<Rightarrow> string" where
  "date_hint L date_columns =
     ''\<newline>- '' @ w_date_a L @ join '', '' (map (\<lambda>col. dquote @ col @ dquote) date_columns)
       @ ''\<newline>'' @ w_date_b L"

definition generate_sql_for_date_filters :: "wording \<Rightarrow> string \<Rightarrow> string \<Rightarrow> py_error + string" where
  "generate_sql_for_date_filters L sql_prompt schema_str =
     (case date_columns_of (split schema_str ''\<newline>'') of
        Inl e \<Rightarrow> Inl e
      | Inr date_columns \<Rightarrow>
          if date_columns \<noteq> [] then Inr (sql_prompt @ date_hint L date_columns) else Inr sql_prompt)"

text \<open>
  Step 3 of \<^verbatim>\<open>main\<close>: the schema block and the column names, from the rows
  \<^verbatim>\<open>(col_name, col_type)\<close> of \<^verbatim>\<open>PRAGMA table_info(data)\<close>.
  \<^verbatim>\<open>
  schema_lines.append(f" - {col_name} ({col_type})")
  schema_str = "\n".join(schema_lines)
  column_names_str = ", ".join([f'"{col}"' if ' ' in str(col) else str(col) for col in column_names_list])
  \<close>
\<close>

definition schema_str_of :: "(string \<times> string) list \<Rightarrow> string" where
  "schema_str_of columns_info =
     join ''\<newline>'' (map (\<lambda>(col_name, col_type). '' - '' @ col_name @ '' ('' @ col_type @ '')'') columns_info)"

definition column_names_str_of :: "(string \<times> string) list \<Rightarrow> string" where
  "column_names_str_of columns_info =
     join '', '' (map (\<lambda>(col, col_type). if py_in '' '' col then dquote @ col @ dquote else col) columns_info)"

text \<open>
  \<^verbatim>\<open>sql_prompt\<close>, steps 5B of the default mode and of \<^verbatim>\<open>--sql-only\<close> mode:
  \<^verbatim>\<open>
  sql_prompt = f"""
  <w_using>{selected_columns}
  <w_table>'{table_name}' (SQLite).
  <w_request>"{args.query}"
  <w_schema>
  {schema_str}
  <w_sample>
  {sample_str_sql}

  <w_rules>"""
  if len(sheet_names) > 1:
      sql_prompt += f"""
  - <w_sheet_a>'_sheet_name'<w_sheet_b>({', '.join(sheet_names)}).
    <w_sheet_c>
  """
  sql_response = chat_with_gpt(client, args.model, sql_prompt, temperature=0)
  \<close>
\<close>

definition table_name :: string where
  "table_name = ''data''"

definition sql_prompt_of :: "wording \<Rightarrow> string \<Rightarrow> string \<Rightarrow> string \<Rightarrow> string \<Rightarrow> string \<Rightarrow> string list \<Rightarrow> string" where
  "sql_prompt_of L rules selected_columns query schema_str sample_str_sql sheet_names =
     ''\<newline>'' @ w_using L @ selected_columns @ ''\<newline>''
     @ w_table L @ squote @ table_name @ squote @ '' (SQLite).\<newline>''
     @ w_request L @ dquote @ query @ dquote @ ''\<newline>''
     @ w_schema L @ ''\<newline>'' @ schema_str @ ''\<newline>''
     @ w_sample L @ ''\<newline>'' @ sample_str_sql @ ''\<newline>\<newline>''
     @ rules
     @ (if length sheet_names > 1
        then ''\<newline>- '' @ w_sheet_a L @ squote @ ''_sheet_name'' @ squote @ w_sheet_b L
             @ ''('' @ join '', '' sheet_names @ '').\<newline>  '' @ w_sheet_c L @ ''\<newline>''
        else [])"

section \<open>The runs of the two scripts\<close>

text \<open>
  What a run of \<^verbatim>\<open>main\<close> is given from outside, besides the files: the workbook pandas
  reads, what SQLite does when the table is written, what step 3 reads back from the table (the rows of
  \<^verbatim>\<open>PRAGMA table_info\<close> as name and type, and the sample rows as \<^verbatim>\<open>str(row)\<close> prints
  them; \<open>None\<close>: step 3 raises), the model's replies to the column prompt and to the SQL
  prompt, what \<^verbatim>\<open>cursor.execute\<close> does with the statement it is given, the clock, and
  what writing the Excel file of the result does. \<^verbatim>\<open>chat_with_gpt\<close> catches every
  exception and returns a text, so a call of the model always has a reply.
\<close>

datatype exec_answer =
    OperationalError string
  | OtherError
  | NoResultSet
  | ResultSet "string list" "cell list list"

text \<open>
  \<^item> \<open>OperationalError msg\<close>: \<^verbatim>\<open>cursor.execute\<close> raises \<^verbatim>\<open>sqlite3.OperationalError\<close>;
  \<^item> \<open>OtherError\<close>: it raises another exception;
  \<^item> \<open>NoResultSet\<close>: the statement ran and is not a query, so \<^verbatim>\<open>cursor.description\<close> is
    \<^verbatim>\<open>None\<close> and the comprehension over it raises \<^verbatim>\<open>TypeError\<close>;
  \<^item> \<open>ResultSet columns rows\<close>: the statement ran and these are its columns and rows.
\<close>

datatype save_answer = Saved | WriterFails | CloseFails

record environment =
  env_workbook :: "(string \<times> dataframe option list) list option"
  env_db :: db_answer
  env_schema :: "((string \<times> string) list \<times> string list) option"
  env_columns_reply :: string
  env_sql_reply :: string
  env_exec :: exec_answer
  env_now :: "nat \<Rightarrow> real"
  env_save :: save_answer

text \<open>
  What a run leaves behind: the exit code of the process, the calls of the model in
  order (the SQL prompt of \<^verbatim>\<open>table_file_answer.py\<close> with its text), the statements that
  came from the model or from the command line and were passed to \<^verbatim>\<open>cursor.execute\<close>
  (the script's own \<^verbatim>\<open>PRAGMA\<close> and sample \<^verbatim>\<open>SELECT\<close> are not listed), and the world.
\<close>

datatype model_call =
    ColumnsCall
  | SqlCall string
  | SqlMessagesCall
  | ClarifyTimeoutCall
  | ClarifyErrorCall
  | ClarifyEmptyCall
  | PivotCall
  | DescribeCall
  | ErrorCall
  | AnswerCall

record run =
  exit_code :: nat
  calls :: "model_call list"
  executed :: "string list"
  final :: world

text \<open>
  The start of \<^verbatim>\<open>main\<close> in both scripts, up to step 3:
  \<^verbatim>\<open>
  if not os.path.exists(args.file_path):
      sys.exit(1)
  db_file = ...
  file_hash = get_file_hash(args.file_path)
  cache_key = f"{file_hash}_{db_file}"
  ... step 1, step 2 ...
  try:
      cursor = conn.cursor()
      ... sample_data, columns_info ...
  except Exception as e:
      conn.close()
      sys.exit(1)
  \<close>
  It gives the sheet names, the rows of \<^verbatim>\<open>table_info\<close> and the sample rows, or the error
  that ends the run with exit code 1.
\<close>

fun prepare :: "script \<Rightarrow> (string \<Rightarrow> string) \<Rightarrow> bool \<Rightarrow> string \<Rightarrow> environment \<Rightarrow> world
    \<Rightarrow> (error + string list \<times> (string \<times> string) list \<times> string list) \<times> world" where
  "prepare s digest cache file_path env w =
     (case files w file_path of
        None \<Rightarrow> (Inl FileNotFound, w)
      | Some content \<Rightarrow>
          (case stage s cache file_path (get_file_hash digest content) (env_workbook env) (env_db env) w of
             (Inl e, w1) \<Rightarrow> (Inl e, w1)
           | (Inr (df, sheet_names), w1) \<Rightarrow>
               (case env_schema env of
                  None \<Rightarrow> (Inl SchemaError, w1)
                | Some (columns_info, sample_data) \<Rightarrow> (Inr (sheet_names, columns_info, sample_data), w1))))"

declare prepare.simps [simp del]

text \<open>
  \<^verbatim>\<open>table_file_answer.py\<close>, step 8 and the same lines of \<^verbatim>\<open>--execute-sql\<close> mode: the
  result is written to the Excel file; with more than 1000 rows the model is asked how to
  pivot them; then the model is asked to describe the table. An exception is caught
  and reported, and no call follows it. What writing the file does is the answer
  \<open>env_save\<close>:
  \<^item> \<open>Saved\<close>: the file is written;
  \<^item> \<open>WriterFails\<close>: \<^verbatim>\<open>pd.ExcelWriter\<close> or \<^verbatim>\<open>to_excel\<close> raises, before the pivot question;
  \<^item> \<open>CloseFails\<close>: the writer raises when the \<^verbatim>\<open>with\<close> block is left and the file is
    written out, after the pivot question.
  \<^verbatim>\<open>
  with pd.ExcelWriter(output_file, engine='openpyxl') as writer:
      df_result.to_excel(writer, index=False, sheet_name=...)
      if len(df_result) > 1000:
          try:
              summary_response = chat_with_gpt(client, args.model, summary_prompt, temperature=0.5).strip()
              ...
          except Exception as e:
              print(...)
  table_description = chat_with_gpt(client, args.model, summary_prompt, temperature=0.7)
  \<close>
\<close>

definition save_calls :: "environment \<Rightarrow> nat \<Rightarrow> model_call list" where
  "save_calls env n =
     (case env_save env of
        WriterFails \<Rightarrow> []
      | CloseFails \<Rightarrow> (if n > 1000 then [PivotCall] else [])
      | Saved \<Rightarrow> (if n > 1000 then [PivotCall] else []) @ [DescribeCall])"

record tfa_args =
  arg_file_path :: string
  arg_query :: string
  arg_output :: string
  arg_analyze_only :: bool
  arg_sql_only :: bool
  arg_execute_sql :: bool
  arg_columns :: "string option"
  arg_sql :: "string option"
  arg_cache :: bool
  arg_timeout :: int

text \<open>
  \<^verbatim>\<open>--execute-sql\<close> mode: the statement of \<^verbatim>\<open>--sql\<close> is executed as given and the run
  ends with exit code 0 whatever happens.
  \<^verbatim>\<open>
  elif args.execute_sql:
      sql_query = args.sql
      try:
          cursor.execute(sql_query)
          columns = [desc[0] for desc in cursor.description]
          ... drain loop ...
          if not query_result:
              clar_response = chat_with_gpt(client, args.model, clar_prompt, temperature=0.7)
          else:
              ... save ...
      except sqlite3.OperationalError as e:
          print(...)
      except Exception as e:
          print(...)
      conn.close()
      sys.exit(0)
  \<close>
  Without \<^verbatim>\<open>--sql\<close> the statement is \<^verbatim>\<open>None\<close> and \<^verbatim>\<open>cursor.execute\<close> raises
  \<^verbatim>\<open>TypeError\<close> before anything runs.
\<close>

definition tfa_execute_sql :: "tfa_args \<Rightarrow> environment \<Rightarrow> world \<Rightarrow> run" where
  "tfa_execute_sql args env w =
     (case arg_sql args of
        None \<Rightarrow> \<lparr>exit_code = 0, calls = [], executed = [], final = w\<rparr>
      | Some sql_query \<Rightarrow>
          (case env_exec env of
             ResultSet columns rows \<Rightarrow>
               (let query_result = fst (drain columns (env_now env) (arg_timeout args) 0 rows [])
                in if length query_result = 0
                   then \<lparr>exit_code = 0, calls = [ClarifyEmptyCall], executed = [sql_query], final = w\<rparr>
                   else \<lparr>exit_code = 0, calls = save_calls env (length query_result),
                          executed = [sql_query], final = w\<rparr>)
           | _ \<Rightarrow> \<lparr>exit_code = 0, calls = [], executed = [sql_query], final = w\<rparr>))"

text \<open>
  The default mode, steps 5A to 8:
  \<^verbatim>\<open>
  suggested_columns = chat_with_gpt(client, args.model, columns_prompt, temperature=0.3)
  selected_columns = suggested_columns
  sql_prompt = f"""..."""
  if len(sheet_names) > 1:
      sql_prompt += f"""..."""
  try:
      sql_response = chat_with_gpt(client, args.model, sql_prompt, temperature=0)
      ... extraction ...
      if not sql_query.upper().startswith("SELECT"):
          conn.close()
          sys.exit(1)
  except Exception as e:
      sys.exit(1)
  try:
      cursor.execute(sql_query)
      columns_desc = [description[0] for description in cursor.description]
      ... drain loop ...
  except sqlite3.OperationalError as e:
      if "timeout" in str(e):
          ... clar_response = chat_with_gpt(...) ...
          sys.exit(1)
      else:
          ... clar_response = chat_with_gpt(...) ...
          sys.exit(1)
  except Exception as e:
      sys.exit(1)
  if not query_result:
      ... clar_response = chat_with_gpt(...) ...
      conn.close()
      sys.exit(1)
  else:
      try:
          ... save ...
      except Exception as e:
          print(...)
      finally:
          conn.close()
  \<close>
  After step 8 \<^verbatim>\<open>main\<close> returns, so the exit code is 0.
\<close>

definition tfa_default :: "wording \<Rightarrow> tfa_args \<Rightarrow> environment \<Rightarrow> string list \<Rightarrow> string \<Rightarrow> string \<Rightarrow> world \<Rightarrow> run" where
  "tfa_default L args env sheet_names schema_str sample_str_sql w =
     (let suggested_columns = env_columns_reply env;
          sql_prompt = sql_prompt_of L (w_rules_default L) suggested_columns (arg_query args)
                         schema_str sample_str_sql sheet_names;
          sql_query = extract_sql_query (env_sql_reply env);
          asked = [ColumnsCall, SqlCall sql_prompt]
      in if \<not> is_select sql_query
         then \<lparr>exit_code = 1, calls = asked, executed = [], final = w\<rparr>
         else
           (case env_exec env of
              OperationalError msg \<Rightarrow>
                \<lparr>exit_code = 1,
                 calls = asked @ [if py_in ''timeout'' msg then ClarifyTimeoutCall else ClarifyErrorCall],
                 executed = [sql_query], final = w\<rparr>
            | ResultSet columns_desc rows \<Rightarrow>
                (let query_result = fst (drain columns_desc (env_now env) (arg_timeout args) 0 rows [])
                 in if length query_result = 0
                    then \<lparr>exit_code = 1, calls = asked @ [ClarifyEmptyCall],
                           executed = [sql_query], final = w\<rparr>
                    else \<lparr>exit_code = 0, calls = asked @ save_calls env (length query_result),
                           executed = [sql_query], final = w\<rparr>)
            | _ \<Rightarrow> \<lparr>exit_code = 1, calls = asked, executed = [sql_query], final = w\<rparr>))"

text \<open>
  \<^verbatim>\<open>main\<close> of \<^verbatim>\<open>table_file_answer.py\<close>: the modes are tested in this order.
  \<^verbatim>\<open>
  if args.analyze_only:
      suggested_columns = chat_with_gpt(client, args.model, columns_prompt, temperature=0.3)
      conn.close()
      sys.exit(0)
  elif args.sql_only:
      selected_columns = args.columns if args.columns else column_names_str
      ... sql_prompt, sql_response, extraction ...
      print(f"SQL_QUERY_START\n{sql_query}\nSQL_QUERY_END")
      conn.close()
      sys.exit(0)
  elif args.execute_sql:
      ...
  \<close>
  \<^verbatim>\<open>args.columns if args.columns\<close> takes the column names also when \<^verbatim>\<open>--columns\<close> is the
  empty text.
\<close>

definition tfa_main :: "wording \<Rightarrow> (string \<Rightarrow> string) \<Rightarrow> tfa_args \<Rightarrow> environment \<Rightarrow> world \<Rightarrow> run" where
  "tfa_main L digest args env w =
     (case prepare TableFileAnswerPy digest (arg_cache args) (arg_file_path args) env w of
        (Inl e, w1) \<Rightarrow> \<lparr>exit_code = 1, calls = [], executed = [], final = w1\<rparr>
      | (Inr (sheet_names, columns_info, sample_data), w1) \<Rightarrow>
          (let sample_str_sql = join ''\<newline>'' sample_data;
               schema_str = schema_str_of columns_info;
               column_names_str = column_names_str_of columns_info
           in if arg_analyze_only args
              then \<lparr>exit_code = 0, calls = [ColumnsCall], executed = [], final = w1\<rparr>
              else if arg_sql_only args
              then (let selected_columns =
                          (case arg_columns args of
                             None \<Rightarrow> column_names_str
                           | Some c \<Rightarrow> if c = [] then column_names_str else c)
                    in \<lparr>exit_code = 0,
                        calls = [SqlCall (sql_prompt_of L (w_rules_sql_only L) selected_columns
                                   (arg_query args) schema_str sample_str_sql sheet_names)],
                        executed = [], final = w1\<rparr>)
              else if arg_execute_sql args then tfa_execute_sql args env w1
              else tfa_default L args env sheet_names schema_str sample_str_sql w1))"

text \<open>
  \<^verbatim>\<open>main\<close> of \<^verbatim>\<open>answer.py\<close>, steps 5 to 8. The reply of the model is taken through the
  extraction and passed to \<^verbatim>\<open>cursor.execute\<close>:
  \<^verbatim>\<open>
  gpt_sql = chat_with_gpt(client, args.model, sql_messages, temperature=0)
  if "```sql" in gpt_sql and "```" in gpt_sql.split("```sql", 1)[1]:
      gpt_sql = gpt_sql.split("```sql", 1)[1].split("```", 1)[0].strip()
  elif "```" in gpt_sql and "```" in gpt_sql.split("```", 1)[1]:
      gpt_sql = gpt_sql.split("```", 1)[1].split("```", 1)[0].strip()
  try:
      cursor.execute(gpt_sql)
      query_result = cursor.fetchall()
      column_names = [description[0] for description in cursor.description]
  except Exception as e:
      ...
      error_response = chat_with_gpt(client, args.model, error_messages, temperature=0.7)
      sys.exit(1)
  try:
      ...
      natural_language_answer = chat_with_gpt(client, args.model, [...], temperature=0.7)
  except Exception as e:
      print(...)
  finally:
      if not args.cache:
          conn.close()
  if not args.cache:
      try:
          if os.path.exists(db_file):
              os.remove(db_file)
      except Exception as e:
          print(...)
  \<close>
  The content of the messages (system prompt, chat history) is not modelled.
\<close>

record answer_args =
  ans_file_path :: string
  ans_query :: string
  ans_cache :: bool

definition answer_main :: "(string \<Rightarrow> string) \<Rightarrow> answer_args \<Rightarrow> environment \<Rightarrow> world \<Rightarrow> run" where
  "answer_main digest args env w =
     (case prepare AnswerPy digest (ans_cache args) (ans_file_path args) env w of
        (Inl e, w1) \<Rightarrow> \<lparr>exit_code = 1, calls = [], executed = [], final = w1\<rparr>
      | (Inr (sheet_names, columns_info, sample_data), w1) \<Rightarrow>
          (let gpt_sql = extract_gpt_sql (env_sql_reply env)
           in case env_exec env of
                ResultSet column_names query_result \<Rightarrow>
                  \<lparr>exit_code = 0, calls = [SqlMessagesCall, AnswerCall], executed = [gpt_sql],
                   final = (if ans_cache args then w1
                            else w1\<lparr>db_files := (db_files w1)(db_file_of (ans_file_path args) := None)\<rparr>)\<rparr>
              | _ \<Rightarrow> \<lparr>exit_code = 1, calls = [SqlMessagesCall, ErrorCall], executed = [gpt_sql],
                       final = w1\<rparr>))"

text \<open>Example inputs of the closed theorems: an ASCII wording, the arguments of a run in
  the default mode on one of the two copies, and what such a run is given, with the reply
  to the SQL prompt and the behaviour of the statement left open.\<close>

definition ascii_wording :: wording where
  "ascii_wording =
     \<lparr>w_using = ''Using the columns: '', w_table = ''The table is '', w_request = ''Request: '',
      w_schema = ''Schema:'', w_sample = ''First 10 rows:'',
      w_rules_sql_only = ''Return one SELECT statement.\<newline>'',
      w_rules_default = ''Return one SELECT statement, literally.\<newline>'',
      w_sheet_a = ''The column '', w_sheet_b = '' names the sheet of the row '',
      w_sheet_c = ''Use it to filter by sheet.'',
      w_date_a = ''Mind the date columns: '', w_date_b = ''- Compare with an explicit year.\<newline>''\<rparr>"

definition example_args :: tfa_args where
  "example_args =
     \<lparr>arg_file_path = ''/tmp/a/data.xlsx'', arg_query = ''all rows'', arg_output = ''final.xlsx'',
      arg_analyze_only = False, arg_sql_only = False, arg_execute_sql = False,
      arg_columns = None, arg_sql = None, arg_cache = False, arg_timeout = 600\<rparr>"

definition example_env :: "string \<Rightarrow> exec_answer \<Rightarrow> environment" where
  "example_env reply answer =
     \<lparr>env_workbook = Some sheet_v1, env_db = DbOk,
      env_schema = Some ([(''v'', ''INTEGER''), (''_sheet_name'', ''TEXT'')], [''(1, '' @ squote @ ''S'' @ squote @ '')'']),
      env_columns_reply = ''v'', env_sql_reply = reply, env_exec = answer,
      env_now = real, env_save = Saved\<rparr>"

definition example_answer_args :: answer_args where
  "example_answer_args = \<lparr>ans_file_path = ''/tmp/a/data.xlsx'', ans_query = ''all rows'', ans_cache = False\<rparr>"

text \<open>The same with a sheet whose only column is named \<^verbatim>\<open>Date\<close> and holds a text.\<close>

definition dated_sheet :: "(string \<times> dataframe option list) list" where
  "dated_sheet = [(''S'', [Some \<lparr>df_columns = [''Date''], df_rows = [[Str ''2020-01-01'']]\<rparr>])]"

definition dated_sample :: string where
  "dated_sample = ''('' @ squote @ ''2020-01-01'' @ squote @ '', '' @ squote @ ''S'' @ squote @ '')''"

definition dated_env :: "string \<Rightarrow> exec_answer \<Rightarrow> environment" where
  "dated_env reply answer =
     \<lparr>env_workbook = Some dated_sheet, env_db = DbOk,
      env_schema = Some ([(''Date'', ''TEXT''), (''_sheet_name'', ''TEXT'')], [dated_sample]),
      env_columns_reply = ''Date'', env_sql_reply = reply, env_exec = answer,
      env_now = real, env_save = Saved\<rparr>"

section \<open>The session state of the Telegram bot\<close>

text \<open>
  \<^verbatim>\<open>telegram-excel-bot.py\<close> keeps two global dictionaries keyed by the Telegram user id:
  \<^verbatim>\<open>
  user_states = {}
  user_data = {}
  STATE_IDLE = 'idle'
  STATE_WAITING_QUERY = 'waiting_query'
  STATE_CHAT_MODE = 'chat_mode'
  \<close>
  The value of \<^verbatim>\<open>user_data[user_id]\<close> is a dictionary with the keys \<^verbatim>\<open>file_id\<close>,
  \<^verbatim>\<open>file_name\<close>, \<^verbatim>\<open>action_type\<close>, \<^verbatim>\<open>query\<close>, \<^verbatim>\<open>file_path\<close> and
  \<^verbatim>\<open>chat_history\<close>, each present or not: a record of options. A message of the chat
  history is \<^verbatim>\<open>{"role": ..., "content": ...}\<close>, one constructor for each role; the
  content of the system message is a fixed sentence around the file name, which the
  constructor carries.
\<close>

type_synonym uid = int

datatype state = STATE_IDLE | STATE_WAITING_QUERY | STATE_CHAT_MODE

datatype message = System string | User string | Assistant string

record session =
  ud_file_id :: "string option"
  ud_file_name :: "string option"
  ud_action_type :: "string option"
  ud_query :: "string option"
  ud_file_path :: "string option"
  ud_chat_history :: "message list option"

definition empty_session :: session where
  "empty_session = \<lparr>ud_file_id = None, ud_file_name = None, ud_action_type = None, ud_query = None,
     ud_file_path = None, ud_chat_history = None\<rparr>"

record bot =
  user_states :: "uid \<rightharpoonup> state"
  user_data :: "uid \<rightharpoonup> session"

definition initial_bot :: bot where
  "initial_bot = \<lparr>user_states = Map.empty, user_data = Map.empty\<rparr>"

text \<open>
  The reset that \<^verbatim>\<open>start\<close>, \<^verbatim>\<open>cancel\<close> and the buttons \<^verbatim>\<open>back_to_files\<close> and
  \<^verbatim>\<open>main_menu\<close> share:
  \<^verbatim>\<open>
  user_states[user_id] = STATE_IDLE
  if user_id in user_data:
      user_data[user_id] = {}
  \<close>
\<close>

definition reset :: "uid \<Rightarrow> bot \<Rightarrow> bot" where
  "reset user_id b =
     b\<lparr>user_states := (user_states b)(user_id \<mapsto> STATE_IDLE),
       user_data := (if user_id \<in> dom (user_data b) then (user_data b)(user_id \<mapsto> empty_session)
                     else user_data b)\<rparr>"

text \<open>
  \<^verbatim>\<open>
  async def cancel(update, context):
      user_id = update.effective_user.id
      user_states[user_id] = STATE_IDLE
      if user_id in user_data:
          user_data[user_id] = {}
      await update.message.reply_text(...)
  \<close>
\<close>

definition cancel :: "uid \<Rightarrow> bot \<Rightarrow> bot" where
  "cancel user_id b = reset user_id b"

text \<open>
  \<^verbatim>\<open>start\<close> returns early when the Drive service cannot be created (\<open>drive_ok\<close> is
  false), and resets the user otherwise.
\<close>

definition start :: "bool \<Rightarrow> uid \<Rightarrow> bot \<Rightarrow> bot" where
  "start drive_ok user_id b = (if \<not> drive_ok then b else reset user_id b)"

text \<open>
  \<^verbatim>\<open>
  async def excel_file_selected(update, context, file_id, file_name):
      if user_id not in user_data:
          user_data[user_id] = {}
      user_data[user_id]['file_id'] = file_id
      user_data[user_id]['file_name'] = file_name
  \<close>
\<close>

definition excel_file_selected :: "uid \<Rightarrow> string \<Rightarrow> string \<Rightarrow> bot \<Rightarrow> bot" where
  "excel_file_selected user_id file_id file_name b =
     (let d = (case user_data b user_id of None \<Rightarrow> empty_session | Some d \<Rightarrow> d)
      in b\<lparr>user_data := (user_data b)(user_id \<mapsto> d\<lparr>ud_file_id := Some file_id, ud_file_name := Some file_name\<rparr>)\<rparr>)"

text \<open>
  The branches of \<^verbatim>\<open>button_callback\<close>. A handler returns the state it leaves and the
  exception it raised, if any: a \<^verbatim>\<open>KeyError\<close> leaves the handler after the assignments
  made before it.
  \<^verbatim>\<open>
  elif query.data == "action_question":
      user_states[user_id] = STATE_WAITING_QUERY
      user_data[user_id]['action_type'] = 'question'
      await query.edit_message_text(f"...{user_data[user_id]['file_name']}...")
  elif query.data == "action_table":
      user_states[user_id] = STATE_WAITING_QUERY
      user_data[user_id]['action_type'] = 'table'
      await query.edit_message_text(f"...{user_data[user_id]['file_name']}...")
  \<close>
\<close>

definition choose_action :: "string \<Rightarrow> uid \<Rightarrow> bot \<Rightarrow> py_error option \<times> bot" where
  "choose_action action_type user_id b =
     (let b1 = b\<lparr>user_states := (user_states b)(user_id \<mapsto> STATE_WAITING_QUERY)\<rparr>
      in case user_data b1 user_id of
           None \<Rightarrow> (Some KeyError, b1)
         | Some d \<Rightarrow>
             (if ud_file_name d = None then Some KeyError else None,
              b1\<lparr>user_data := (user_data b1)(user_id \<mapsto> d\<lparr>ud_action_type := Some action_type\<rparr>)\<rparr>))"

text \<open>
  \<^verbatim>\<open>
  elif query.data == "new_query":
      action_type = user_data[user_id]['action_type']
      user_states[user_id] = STATE_WAITING_QUERY
      await query.edit_message_text(f"...{user_data[user_id]['file_name']}...")
  \<close>
\<close>

definition new_query :: "uid \<Rightarrow> bot \<Rightarrow> py_error option \<times> bot" where
  "new_query user_id b =
     (case user_data b user_id of
        None \<Rightarrow> (Some KeyError, b)
      | Some d \<Rightarrow>
          (case ud_action_type d of
             None \<Rightarrow> (Some KeyError, b)
           | Some action_type \<Rightarrow>
               (if ud_file_name d = None then Some KeyError else None,
                b\<lparr>user_states := (user_states b)(user_id \<mapsto> STATE_WAITING_QUERY)\<rparr>)))"

text \<open>
  \<^verbatim>\<open>
  elif query.data == "end_chat":
      if 'chat_history' in user_data[user_id]:
          del user_data[user_id]['chat_history']
      user_states[user_id] = STATE_IDLE
      ...
      await query.edit_message_text(...)
  \<close>
\<close>

definition end_chat :: "uid \<Rightarrow> bot \<Rightarrow> py_error option \<times> bot" where
  "end_chat user_id b =
     (case user_data b user_id of
        None \<Rightarrow> (Some KeyError, b)
      | Some d \<Rightarrow>
          (None,
           b\<lparr>user_data := (user_data b)(user_id \<mapsto> d\<lparr>ud_chat_history := None\<rparr>),
             user_states := (user_states b)(user_id \<mapsto> STATE_IDLE)\<rparr>))"

text \<open>
  \<^verbatim>\<open>generate_report_from_chat\<close> reads the session and changes nothing in it (the report
  is made from a copy of the history):
  \<^verbatim>\<open>
  if 'chat_history' not in user_data[user_id] or len(user_data[user_id]['chat_history']) < 3:
      return
  file_path = user_data[user_id]['file_path']
  \<close>
\<close>

definition generate_report_from_chat :: "uid \<Rightarrow> bot \<Rightarrow> py_error option \<times> bot" where
  "generate_report_from_chat user_id b =
     (case user_data b user_id of
        None \<Rightarrow> (Some KeyError, b)
      | Some d \<Rightarrow>
          (case ud_chat_history d of
             None \<Rightarrow> (None, b)
           | Some h \<Rightarrow>
               if length h < 3 then (None, b)
               else if ud_file_path d = None then (Some KeyError, b) else (None, b)))"

text \<open>
  \<^verbatim>\<open>
  async def button_callback(update, context):
      if query.data == "refresh_files":
          await refresh_files(update, context)
      elif query.data.startswith("excel_"):
          parts = query.data.split("_", 1)
          if len(parts) == 2:
              file_id = parts[1]
              try:
                  file = drive_service.files().get(fileId=file_id, fields='name').execute()
                  file_name = file['name']
                  await excel_file_selected(update, context, file_id, file_name)
              except Exception as e:
                  ...
      elif query.data == "action_question": ...
      elif query.data == "action_table": ...
      elif query.data == "back_to_files": ... reset ...
      elif query.data == "new_query": ...
      elif query.data == "main_menu": ... reset ...
      elif query.data == "end_chat": ...
      elif query.data == "generate_report":
          await generate_report_from_chat(update, context)
  \<close>
  \<open>drive_name\<close> is the name Drive gives for the file id (\<open>None\<close>: the request raises).
  \<^verbatim>\<open>refresh_files\<close> only edits the message.
\<close>

definition button_callback :: "string \<Rightarrow> string option \<Rightarrow> uid \<Rightarrow> bot \<Rightarrow> py_error option \<times> bot" where
  "button_callback data drive_name user_id b =
     (if data = ''refresh_files'' then (None, b)
      else if startswith data ''excel_'' then
        (case split1 ''_'' data of
           [p0, file_id] \<Rightarrow>
             (case drive_name of
                None \<Rightarrow> (None, b)
              | Some file_name \<Rightarrow> (None, excel_file_selected user_id file_id file_name b))
         | _ \<Rightarrow> (None, b))
      else if data = ''action_question'' then choose_action ''question'' user_id b
      else if data = ''action_table'' then choose_action ''table'' user_id b
      else if data = ''back_to_files'' then (None, reset user_id b)
      else if data = ''new_query'' then new_query user_id b
      else if data = ''main_menu'' then (None, reset user_id b)
      else if data = ''end_chat'' then end_chat user_id b
      else if data = ''generate_report'' then generate_report_from_chat user_id b
      else (None, b))"

text \<open>
  The answer shown to the user is cut out of the script's output: \<open>marker\<close> is the line
  that the scripts print before the answer.
  \<^verbatim>\<open>
  if marker in result:
      parts = result.split(marker)
      if len(parts) > 1:
          result = parts[1].strip()
  \<close>
\<close>

definition user_result :: "string \<Rightarrow> string \<Rightarrow> string" where
  "user_result marker result =
     (if py_in marker result
      then (case split result marker of p0 # p1 # ps \<Rightarrow> strip p1 | _ \<Rightarrow> result)
      else result)"

text \<open>
  \<^verbatim>\<open>
  async def start_chat_mode(update, context, message_obj, user_query, file_path):
      user_states[user_id] = STATE_CHAT_MODE
      if 'chat_history' not in user_data[user_id]:
          user_data[user_id]['chat_history'] = []
      system_prompt = f"...'{user_data[user_id]['file_name']}'..."
      user_data[user_id]['chat_history'].append({"role": "system", "content": system_prompt})
      user_data[user_id]['chat_history'].append({"role": "user", "content": user_query})
      ...
      result = await run_script('answer.py', file_path, user_query, chat_history=chat_history_path)
      ...
      user_data[user_id]['chat_history'].append({"role": "assistant", "content": result})
  \<close>
  It is called with the session \<open>d\<close> of the user, in which \<^verbatim>\<open>file_name\<close> was just read.
  \<open>result\<close> is what \<^verbatim>\<open>run_script\<close> returns, the output of the script or the text of an
  error: \<^verbatim>\<open>run_script\<close> catches every exception.
\<close>

definition start_chat_mode :: "string \<Rightarrow> string \<Rightarrow> string \<Rightarrow> string \<Rightarrow> uid \<Rightarrow> session \<Rightarrow> bot \<Rightarrow> bot" where
  "start_chat_mode marker file_name user_query result user_id d b =
     (let h = (case ud_chat_history d of None \<Rightarrow> [] | Some h \<Rightarrow> h)
      in b\<lparr>user_states := (user_states b)(user_id \<mapsto> STATE_CHAT_MODE),
           user_data := (user_data b)(user_id \<mapsto>
             d\<lparr>ud_chat_history :=
                 Some (h @ [System file_name, User user_query, Assistant (user_result marker result)])\<rparr>)\<rparr>)"

text \<open>
  \<^verbatim>\<open>
  async def process_chat_query(update, context, user_query):
      file_path = user_data[user_id]['file_path']
      user_data[user_id]['chat_history'].append({"role": "user", "content": user_query})
      ...
      result = await run_script('answer.py', file_path, user_query, chat_history=chat_history_path)
      ...
      user_data[user_id]['chat_history'].append({"role": "assistant", "content": result})
  \<close>
\<close>

definition process_chat_query :: "string \<Rightarrow> string \<Rightarrow> string \<Rightarrow> uid \<Rightarrow> bot \<Rightarrow> py_error option \<times> bot" where
  "process_chat_query marker user_query result user_id b =
     (case user_data b user_id of
        None \<Rightarrow> (Some KeyError, b)
      | Some d \<Rightarrow>
          (case ud_file_path d of
             None \<Rightarrow> (Some KeyError, b)
           | Some file_path \<Rightarrow>
               (case ud_chat_history d of
                  None \<Rightarrow> (Some KeyError, b)
                | Some h \<Rightarrow>
                    (None,
                     b\<lparr>user_data := (user_data b)(user_id \<mapsto>
                         d\<lparr>ud_chat_history :=
                             Some (h @ [User user_query, Assistant (user_result marker result)])\<rparr>)\<rparr>))))"

text \<open>
  \<^verbatim>\<open>
  async def handle_text_input(update, context):
      if user_id not in user_states:
          return
      current_state = user_states[user_id]
      if current_state == STATE_WAITING_QUERY:
          if user_id not in user_data or 'file_id' not in user_data[user_id]:
              return
          user_data[user_id]['query'] = user_query
          file_id = user_data[user_id]['file_id']
          file_name = user_data[user_id]['file_name']
          action_type = user_data[user_id]['action_type']
          try:
              downloaded_file_path = await download_file(file_id, file_name)
              if not downloaded_file_path:
                  return
              user_data[user_id]['file_path'] = downloaded_file_path
              if action_type == 'question':
                  await start_chat_mode(update, context, processing_message, user_query, downloaded_file_path)
              else:
                  result = await run_script('table_file_answer.py', downloaded_file_path, user_query)
                  ...
          except Exception as e:
              ...
      elif current_state == STATE_CHAT_MODE:
          await process_chat_query(update, context, user_query)
  \<close>
  \<open>download\<close> is the path \<^verbatim>\<open>download_file\<close> returns (\<open>None\<close> when the download fails).
\<close>

definition handle_text_input :: "string \<Rightarrow> string \<Rightarrow> string option \<Rightarrow> string \<Rightarrow> uid \<Rightarrow> bot \<Rightarrow> py_error option \<times> bot" where
  "handle_text_input marker user_query download result user_id b =
     (case user_states b user_id of
        None \<Rightarrow> (None, b)
      | Some STATE_IDLE \<Rightarrow> (None, b)
      | Some STATE_CHAT_MODE \<Rightarrow> process_chat_query marker user_query result user_id b
      | Some STATE_WAITING_QUERY \<Rightarrow>
          (case user_data b user_id of
             None \<Rightarrow> (None, b)
           | Some d \<Rightarrow>
               if ud_file_id d = None then (None, b)
               else
                 (let d1 = d\<lparr>ud_query := Some user_query\<rparr>;
                      b1 = b\<lparr>user_data := (user_data b)(user_id \<mapsto> d1)\<rparr>
                  in case ud_file_name d1 of
                       None \<Rightarrow> (Some KeyError, b1)
                     | Some file_name \<Rightarrow>
                         (case ud_action_type d1 of
                            None \<Rightarrow> (Some KeyError, b1)
                          | Some action_type \<Rightarrow>
                              (case download of
                                 None \<Rightarrow> (None, b1)
                               | Some downloaded_file_path \<Rightarrow>
                                   (let d2 = d1\<lparr>ud_file_path := Some downloaded_file_path\<rparr>;
                                        b2 = b1\<lparr>user_data := (user_data b1)(user_id \<mapsto> d2)\<rparr>
                                    in if action_type = ''question''
                                       then (None, start_chat_mode marker file_name user_query result user_id d2 b2)
                                       else (None, b2)))))))"

text \<open>
  The updates the bot handles, each with what the outside answers while it is handled,
  and the states the bot can be in: those a sequence of updates leads to from the empty
  dictionaries.
\<close>

datatype event =
    Start bool
  | Cancel
  | Button string "string option"
  | Text string "string option" string

fun handle :: "string \<Rightarrow> uid \<Rightarrow> event \<Rightarrow> bot \<Rightarrow> bot" where
  "handle marker user_id (Start drive_ok) b = start drive_ok user_id b"
| "handle marker user_id Cancel b = cancel user_id b"
| "handle marker user_id (Button data drive_name) b = snd (button_callback data drive_name user_id b)"
| "handle marker user_id (Text user_query download result) b =
     snd (handle_text_input marker user_query download result user_id b)"

fun handle_all :: "string \<Rightarrow> (uid \<times> event) list \<Rightarrow> bot \<Rightarrow> bot" where
  "handle_all marker [] b = b"
| "handle_all marker ((user_id, e) # es) b = handle_all marker es (handle marker user_id e b)"

inductive reachable :: "string \<Rightarrow> bot \<Rightarrow> bool" for marker where
  reachable_initial: "reachable marker initial_bot"
| reachable_handle: "reachable marker b \<Longrightarrow> reachable marker (handle marker user_id e b)"

text \<open>Example input of the closed theorems: user 7 selects a file, chooses to ask a
  question and sends it, which starts the chat.\<close>

definition chat_started :: bot where
  "chat_started =
     handle_all ''=== RESULT ===''
       [(7, Start True),
        (7, Button ''excel_1AbC'' (Some ''data.xlsx'')),
        (7, Button ''action_question'' None),
        (7, Text ''how many rows?'' (Some ''/tmp/dl/data.xlsx'') ''log\<newline>=== RESULT ===\<newline>3 rows\<newline>'')]
       initial_bot"

text \<open>The invariant of the reachable states: a user in \<^verbatim>\<open>chat_mode\<close> has a session
  in which the file id, the file name, the file path and the chat history are set.\<close>

definition chat_ready :: "bot \<Rightarrow> bool" where
  "chat_ready b \<longleftrightarrow>
     (\<forall>u. user_states b u = Some STATE_CHAT_MODE \<longrightarrow>
        (\<exists>d. user_data b u = Some d \<and> ud_file_id d \<noteq> None \<and> ud_file_name d \<noteq> None
           \<and> ud_file_path d \<noteq> None \<and> ud_chat_history d \<noteq> None))"

section \<open>Properties of the text functions\<close>

lemma find_sub_decomp: "find_sub sep s = Some (a, b) \<Longrightarrow> s = a @ sep @ b"
proof (induction s arbitrary: a b)
  case Nil
  then show ?case by (simp split: if_splits)
next
  case (Cons c cs)
  show ?case
  proof (cases "prefix sep (c # cs)")
    case True
    with Cons.prems have "a = []" "b = drop (length sep) (c # cs)" by simp_all
    moreover from True obtain r where "c # cs = sep @ r" by (auto simp: prefix_def)
    ultimately show ?thesis by simp
  next
    case False
    with Cons.prems obtain a' where a': "find_sub sep cs = Some (a', b)" "a = c # a'"
      by (auto split: prod.splits)
    from Cons.IH[OF a'(1)] a'(2) show ?thesis by simp
  qed
qed

lemma find_sub_first:
  "\<forall>i<length a. \<not> prefix sep (drop i (a @ sep @ b)) \<Longrightarrow> find_sub sep (a @ sep @ b) = Some (a, b)"
proof (induction a)
  case Nil
  show ?case
  proof (cases "sep @ b")
    case Nil
    then show ?thesis by simp
  next
    case (Cons y ys)
    then have "prefix sep (y # ys)" by (metis prefixI)
    moreover from Cons have "drop (length sep) (y # ys) = b" by (metis append_eq_conv_conj)
    ultimately show ?thesis using Cons by simp
  qed
next
  case (Cons x a)
  from Cons.prems have h0: "\<not> prefix sep ((x # a) @ sep @ b)" by force
  have "\<forall>i<length a. \<not> prefix sep (drop i (a @ sep @ b))"
  proof (intro allI impI)
    fix i assume "i < length a"
    then have "Suc i < length (x # a)" by simp
    with Cons.prems have "\<not> prefix sep (drop (Suc i) ((x # a) @ sep @ b))" by blast
    then show "\<not> prefix sep (drop i (a @ sep @ b))" by simp
  qed
  from Cons.IH[OF this] h0 show ?case by simp
qed

lemma find_sub_None_iff: "find_sub sep s = None \<longleftrightarrow> (\<forall>i\<le>length s. \<not> prefix sep (drop i s))"
proof (induction s)
  case Nil
  show ?case by auto
next
  case (Cons c cs)
  show ?case
  proof (cases "prefix sep (c # cs)")
    case True
    then show ?thesis by force
  next
    case False
    have "(\<forall>i\<le>length (c # cs). \<not> prefix sep (drop i (c # cs))) \<longleftrightarrow>
          (\<forall>i\<le>length cs. \<not> prefix sep (drop i cs))"
    proof
      assume h: "\<forall>i\<le>length (c # cs). \<not> prefix sep (drop i (c # cs))"
      show "\<forall>i\<le>length cs. \<not> prefix sep (drop i cs)"
      proof (intro allI impI)
        fix i assume "i \<le> length cs"
        then have "Suc i \<le> length (c # cs)" by simp
        with h have "\<not> prefix sep (drop (Suc i) (c # cs))" by blast
        then show "\<not> prefix sep (drop i cs)" by simp
      qed
    next
      assume h: "\<forall>i\<le>length cs. \<not> prefix sep (drop i cs)"
      show "\<forall>i\<le>length (c # cs). \<not> prefix sep (drop i (c # cs))"
      proof (intro allI impI)
        fix i assume "i \<le> length (c # cs)"
        show "\<not> prefix sep (drop i (c # cs))"
        proof (cases i)
          case 0
          with False show ?thesis by simp
        next
          case (Suc j)
          with \<open>i \<le> length (c # cs)\<close> h show ?thesis by simp
        qed
      qed
    qed
    with False Cons.IH show ?thesis by simp
  qed
qed

lemma find_sub_at_head: "find_sub sep (sep @ b) = Some ([], b)"
  using find_sub_first[of "[]" sep b] by simp

lemma find_sub_longer_None: "find_sub sep s = None \<Longrightarrow> find_sub (sep @ x) s = None"
proof (induction s)
  case Nil
  then show ?case by (simp split: if_splits)
next
  case (Cons c cs)
  from Cons.prems have np: "\<not> prefix sep (c # cs)" and r: "find_sub sep cs = None"
    by (auto split: if_splits)
  from np have "\<not> prefix (sep @ x) (c # cs)" using append_prefixD by blast
  with Cons.IH[OF r] show ?case by simp
qed

lemma no_fence_across_newline:
  "\<not> prefix ''```'' (c # q) \<Longrightarrow> \<not> prefix ''```'' (c # q @ CHR ''\<newline>'' # r)"
  by (cases q; cases "tl q") auto

lemma find_closing_fence:
  "find_sub ''```'' q = None \<Longrightarrow> find_sub ''```'' (q @ CHR ''\<newline>'' # ''```'' @ b) = Some (q @ ''\<newline>'', b)"
proof (induction q)
  case Nil
  show ?case by simp
next
  case (Cons c q)
  from Cons.prems have np: "\<not> prefix ''```'' (c # q)" and r: "find_sub ''```'' q = None"
    by (auto split: if_splits)
  from no_fence_across_newline[OF np] have "\<not> prefix ''```'' (c # q @ CHR ''\<newline>'' # ''```'' @ b)" .
  with Cons.IH[OF r] show ?case by simp
qed

lemma no_tag_inside:
  "find_sub ''```'' q = None \<Longrightarrow> find_sub ''```sql'' (q @ ''\<newline>```'') = None"
proof (induction q)
  case Nil
  show ?case by simp
next
  case (Cons c q)
  from Cons.prems have np: "\<not> prefix ''```'' (c # q)" and r: "find_sub ''```'' q = None"
    by (auto split: if_splits)
  from no_fence_across_newline[OF np, of "''```''"] have "\<not> prefix ''```'' (c # q @ ''\<newline>```'')" by simp
  then have "\<not> prefix (''```'' @ ''sql'') (c # q @ ''\<newline>```'')" using append_prefixD by blast
  with Cons.IH[OF r] show ?case by simp
qed

lemma space_len_newline: "space_len (CHR ''\<newline>'' # s) = 1"
  by (cases "CHR ''\<newline>'' # s" rule: space_len.cases) (auto simp: is_space_def)

lemma space_len_end_newline: "space_len_end (CHR ''\<newline>'' # s) = 1"
  by (cases "CHR ''\<newline>'' # s" rule: space_len_end.cases) (auto simp: is_space_def)

lemma skip_newline:
  "skip space_len (CHR ''\<newline>'' # s) = skip space_len s"
  "skip space_len_end (CHR ''\<newline>'' # s) = skip space_len_end s"
  by (subst skip.simps, simp add: space_len_newline space_len_end_newline)+

lemma space_len_le: "space_len s \<le> length s"
  by (cases s rule: space_len.cases) auto

lemma space_len_append: "0 < space_len q \<Longrightarrow> space_len (q @ x) = space_len q"
proof (cases q rule: space_len.cases)
  case (1 a b c s)
  then show ?thesis by simp
next
  case (2 a b)
  assume "0 < space_len q"
  with 2 show ?thesis by (cases x) (auto split: if_splits)
next
  case (3 a)
  assume "0 < space_len q"
  with 3 show ?thesis by (cases x rule: space_len_end.cases) (auto split: if_splits)
next
  case 4
  assume "0 < space_len q"
  with 4 show ?thesis by simp
qed

lemma space_len_append_newline:
  assumes "space_len q = 0" "q \<noteq> []"
  shows "space_len (q @ ''\<newline>'') = 0"
proof (cases q rule: space_len.cases)
  case (1 a b c s)
  with assms show ?thesis by simp
next
  case (2 a b)
  with assms show ?thesis by (auto simp: is_space3_def Let_def split: if_splits)
next
  case (3 a)
  with assms show ?thesis by (auto simp: is_space2_def split: if_splits)
next
  case 4
  with assms show ?thesis by simp
qed

lemma skip_append_newline:
  "skip space_len (q @ ''\<newline>'')
     = (if skip space_len q = [] then [] else skip space_len q @ ''\<newline>'')"
proof (induction q rule: length_induct)
  case (1 q)
  show ?case
  proof (cases "0 < space_len q")
    case True
    let ?k = "space_len q"
    from True space_len_le[of q] have k: "0 < ?k" "?k \<le> length q" by simp_all
    have a: "skip space_len q = skip space_len (drop ?k q)"
      using k by (subst skip.simps) simp
    have b: "skip space_len (q @ ''\<newline>'') = skip space_len (drop ?k q @ ''\<newline>'')"
      using k space_len_append[OF True, of "''\<newline>''"] by (subst skip.simps) simp
    from k have "length (drop ?k q) < length q" by simp
    with 1 have "skip space_len (drop ?k q @ ''\<newline>'')
        = (if skip space_len (drop ?k q) = [] then [] else skip space_len (drop ?k q) @ ''\<newline>'')"
      by blast
    with a b show ?thesis by simp
  next
    case False
    then have z: "space_len q = 0" by simp
    then have a: "skip space_len q = q" by (subst skip.simps) simp
    show ?thesis
    proof (cases "q = []")
      case True
      have "skip space_len ''\<newline>'' = skip space_len []" by (rule skip_newline)
      also have "\<dots> = []" by (subst skip.simps) simp
      finally show ?thesis using True a by simp
    next
      case ne: False
      from space_len_append_newline[OF z ne] have "skip space_len (q @ ''\<newline>'') = q @ ''\<newline>''"
        by (subst skip.simps) simp
      with a ne show ?thesis by simp
    qed
  qed
qed

lemma strip_between_newlines: "strip (CHR ''\<newline>'' # q @ ''\<newline>'') = strip q"
proof -
  have "skip space_len_end (rev (skip space_len (q @ ''\<newline>'')))
          = skip space_len_end (rev (skip space_len q))"
    unfolding skip_append_newline by (simp add: skip_newline)
  then show ?thesis
    unfolding strip_def skip_newline by simp
qed

lemma between_fences:
  assumes "find_sub ''```'' q = None"
  shows "py_in ''```'' (CHR ''\<newline>'' # q @ ''\<newline>```'')"
    and "strip (split1 ''```'' (CHR ''\<newline>'' # q @ ''\<newline>```'') ! 0) = strip q"
proof -
  have 2: "find_sub ''```'' (CHR ''\<newline>'' # q @ ''\<newline>```'') = Some (CHR ''\<newline>'' # q @ ''\<newline>'', [])"
    using find_closing_fence[OF assms, of "[]"] by simp
  show "py_in ''```'' (CHR ''\<newline>'' # q @ ''\<newline>```'')"
    unfolding py_in_def 2 by simp
  show "strip (split1 ''```'' (CHR ''\<newline>'' # q @ ''\<newline>```'') ! 0) = strip q"
    unfolding split1_def 2 using strip_between_newlines[of q] by simp
qed

lemma split1_at_head: "py_in sep (sep @ b)" "split1 sep (sep @ b) ! 1 = b"
  by (simp_all add: py_in_def split1_def find_sub_at_head)

lemma extract_fenced_sql:
  assumes "find_sub ''```'' q = None"
  shows "extract_sql_query (fenced_tagged ''sql'' q) = strip q"
proof -
  have r: "fenced_tagged ''sql'' q = ''```sql'' @ (CHR ''\<newline>'' # q @ ''\<newline>```'')"
    by (simp add: fenced_tagged_def)
  show ?thesis
    unfolding extract_sql_query_def r split1_at_head
    using between_fences[OF assms] split1_at_head(1)[of "''```sql''"] by presburger
qed

lemma extract_fenced_plain:
  assumes "find_sub ''```'' q = None"
  shows "extract_sql_query (fenced q) = strip q"
proof -
  have r: "fenced q = ''```'' @ (CHR ''\<newline>'' # q @ ''\<newline>```'')"
    by (simp add: fenced_def)
  have 0: "\<not> py_in ''```sql'' (''```'' @ (CHR ''\<newline>'' # q @ ''\<newline>```''))"
    using no_tag_inside[OF assms] by (simp add: py_in_def)
  show ?thesis
    unfolding extract_sql_query_def r split1_at_head
    using between_fences[OF assms] split1_at_head(1)[of "''```''"] 0 by presburger
qed

lemma extract_unfenced:
  assumes "find_sub ''```'' q = None"
  shows "extract_sql_query q = strip q"
  using assms find_sub_longer_None[OF assms, of "''sql''"]
  by (simp add: extract_sql_query_def py_in_def)

lemma extract_gpt_fenced_sql:
  assumes "find_sub ''```'' q = None"
  shows "extract_gpt_sql (fenced_tagged ''sql'' q) = strip q"
proof -
  have r: "fenced_tagged ''sql'' q = ''```sql'' @ (CHR ''\<newline>'' # q @ ''\<newline>```'')"
    by (simp add: fenced_tagged_def)
  show ?thesis
    unfolding extract_gpt_sql_def r split1_at_head
    using between_fences[OF assms] split1_at_head(1)[of "''```sql''"] by presburger
qed

lemma extract_gpt_fenced_plain:
  assumes "find_sub ''```'' q = None"
  shows "extract_gpt_sql (fenced q) = strip q"
proof -
  have r: "fenced q = ''```'' @ (CHR ''\<newline>'' # q @ ''\<newline>```'')"
    by (simp add: fenced_def)
  have 0: "\<not> py_in ''```sql'' (''```'' @ (CHR ''\<newline>'' # q @ ''\<newline>```''))"
    using no_tag_inside[OF assms] by (simp add: py_in_def)
  show ?thesis
    unfolding extract_gpt_sql_def r split1_at_head
    using between_fences[OF assms] split1_at_head(1)[of "''```''"] 0 by presburger
qed

lemma extract_gpt_unfenced:
  assumes "find_sub ''```'' q = None"
  shows "extract_gpt_sql q = q"
  using assms find_sub_longer_None[OF assms, of "''sql''"]
  by (simp add: extract_gpt_sql_def py_in_def)

text \<open>
  C6 (as amended). For every query text \<open>q\<close> that contains no triple backtick,
  the extraction of \<^verbatim>\<open>table_file_answer.py\<close> yields the trimmed \<open>q\<close> in all three
  cases: \<open>q\<close> in a fenced block tagged \<^verbatim>\<open>sql\<close>, \<open>q\<close> in a fenced block without a tag,
  and \<open>q\<close> with no fence; the extraction of \<^verbatim>\<open>answer.py\<close> yields the trimmed \<open>q\<close>
  for the two fenced shapes.
\<close>

theorem extraction_three_shapes:
  assumes "\<not> py_in ''```'' q"
  shows "extract_sql_query (fenced_tagged ''sql'' q) = strip q
       \<and> extract_sql_query (fenced q) = strip q
       \<and> extract_sql_query q = strip q
       \<and> extract_gpt_sql (fenced_tagged ''sql'' q) = strip q
       \<and> extract_gpt_sql (fenced q) = strip q"
proof -
  from assms have n: "find_sub ''```'' q = None" unfolding py_in_def by blast
  show ?thesis
    using extract_fenced_sql[OF n] extract_fenced_plain[OF n] extract_unfenced[OF n]
      extract_gpt_fenced_sql[OF n] extract_gpt_fenced_plain[OF n]
    by blast
qed

theorem extraction_three_shapes_witness:
  "\<not> py_in ''```'' '' SELECT 1 ''
   \<and> extract_sql_query (fenced_tagged ''sql'' '' SELECT 1 '') = ''SELECT 1''
   \<and> extract_sql_query (fenced '' SELECT 1 '') = ''SELECT 1''
   \<and> extract_sql_query '' SELECT 1 '' = ''SELECT 1''
   \<and> extract_gpt_sql (fenced_tagged ''sql'' '' SELECT 1 '') = ''SELECT 1''
   \<and> extract_gpt_sql (fenced '' SELECT 1 '') = ''SELECT 1''"
proof -
  have h: "\<not> py_in ''```'' '' SELECT 1 ''" by (simp add: py_in_def)
  have s: "strip '' SELECT 1 '' = ''SELECT 1''" by code_simp
  show ?thesis using h extraction_three_shapes[OF h] unfolding s by blast
qed

text \<open>
  C6 as stated fails: of a fenced block tagged \<^verbatim>\<open>python\<close> the tag stays in the
  extracted text, and of one tagged \<^verbatim>\<open>sqlite\<close> the letters \<^verbatim>\<open>ite\<close>, so the tagged and
  the untagged shape of the same query differ; and \<^verbatim>\<open>answer.py\<close> does not trim a
  response without a fence.
\<close>

theorem extraction_other_tag_counterexample:
  "extract_sql_query (fenced_tagged ''python'' ''SELECT 1'') = ''python\<newline>SELECT 1''
   \<and> extract_sql_query (fenced_tagged ''sqlite'' ''SELECT 1'') = ''ite\<newline>SELECT 1''
   \<and> extract_sql_query (fenced ''SELECT 1'') = ''SELECT 1''
   \<and> extract_sql_query (fenced_tagged ''python'' ''SELECT 1'') \<noteq> extract_sql_query (fenced ''SELECT 1'')
   \<and> extract_sql_query (fenced_tagged ''sqlite'' ''SELECT 1'') \<noteq> extract_sql_query (fenced ''SELECT 1'')
   \<and> extract_gpt_sql '' SELECT 1'' = '' SELECT 1''
   \<and> extract_gpt_sql '' SELECT 1'' \<noteq> extract_gpt_sql (fenced '' SELECT 1'')"
  by code_simp

text \<open>The unfenced shape in \<^verbatim>\<open>answer.py\<close>: the response is used untrimmed.\<close>

lemma extract_gpt_sql_untrimmed: "extract_gpt_sql '' SELECT 1'' = '' SELECT 1''"
  by (simp add: extract_gpt_sql_def py_in_def)

section \<open>Properties of the drain loop\<close>







section \<open>Properties of ingestion\<close>

lemma set_uniq: "set (uniq seen xs) = set xs - set seen"
  by (induction xs arbitrary: seen) auto

lemma map_of_zip_absent: "c \<notin> set cols \<Longrightarrow> map_of (zip cols r) c = None"
proof -
  assume "c \<notin> set cols"
  then have "c \<notin> fst ` set (zip cols r)" by (auto dest: set_zip_leftD)
  then show ?thesis by (simp add: map_of_eq_None_iff)
qed

lemma cell_at_absent: "c \<notin> set cols \<Longrightarrow> cell_at cols r c = NaN"
  by (simp add: cell_at_def map_of_zip_absent)

lemma cell_at_appended:
  assumes "length cols = length r" "c \<notin> set cols"
  shows "cell_at (cols @ [c]) (r @ [v]) c' = (if c' = c then v else cell_at cols r c')"
proof (cases "c' = c")
  case True
  with assms show ?thesis by (simp add: cell_at_def map_add_def map_of_zip_absent)
next
  case False
  with assms(1) show ?thesis
    by (auto simp: cell_at_def map_add_def map_of_zip_absent split: option.splits)
qed

lemma cell_at_reindex: "cell_at cols (map f cols) c = (if c \<in> set cols then f c else NaN)"
  by (simp add: cell_at_def map_of_zip_map)

lemma column_values_concat:
  "column_values (concat_frames dfs) c = concat (map (\<lambda>df. column_values df c) dfs)"
proof -
  let ?U = "uniq [] (concat (map df_columns dfs))"
  have U: "set ?U = (\<Union>df \<in> set dfs. set (df_columns df))" by (simp add: set_uniq)
  have "map (\<lambda>r. cell_at ?U r c) (map (reindex ?U df) (df_rows df)) = column_values df c"
    if "df \<in> set dfs" for df
  proof -
    have "cell_at ?U (reindex ?U df r) c = cell_at (df_columns df) r c" for r
    proof (cases "c \<in> set ?U")
      case True
      then show ?thesis by (simp add: reindex_def cell_at_reindex)
    next
      case False
      with U that have "c \<notin> set (df_columns df)" by blast
      with False show ?thesis by (simp add: reindex_def cell_at_reindex cell_at_absent)
    qed
    then show ?thesis by (simp add: column_values_def)
  qed
  then have B: "map (\<lambda>df. map (\<lambda>r. cell_at ?U r c) (map (reindex ?U df) (df_rows df))) dfs
           = map (\<lambda>df. column_values df c) dfs"
    by (intro map_cong[OF refl])
  have A: "column_values (concat_frames dfs) c
      = concat (map (\<lambda>df. map (\<lambda>r. cell_at ?U r c) (map (reindex ?U df) (df_rows df))) dfs)"
    by (simp add: column_values_def concat_frames_def Let_def map_concat comp_def)
  show ?thesis unfolding A B by (rule refl)
qed

lemma length_rows_concat:
  "length (df_rows (concat_frames dfs)) = sum_list (map (\<lambda>df. length (df_rows df)) dfs)"
  by (simp add: concat_frames_def Let_def length_concat comp_def)

lemma length_rows_set_column: "length (df_rows (set_column c v df)) = length (df_rows df)"
  by (simp add: set_column_def)

lemma map_of_overwrite:
  "length cols = length r \<Longrightarrow> c \<in> set cols \<Longrightarrow>
   map_of (zip cols (map (\<lambda>(n, x). if n = c then v else x) (zip cols r))) c = Some v"
  by (induction cols r rule: list_induct2) auto

lemma map_of_overwrite_other:
  "length cols = length r \<Longrightarrow> c' \<noteq> c \<Longrightarrow>
   map_of (zip cols (map (\<lambda>(n, x). if n = c then v else x) (zip cols r))) c' = map_of (zip cols r) c'"
  by (induction cols r rule: list_induct2) auto

lemma column_values_set_column_same:
  assumes "wf_frame df"
  shows "column_values (set_column c v df) c = replicate (length (df_rows df)) v"
proof -
  have "cell_at (df_columns (set_column c v df)) r' c = v" if "r' \<in> set (df_rows (set_column c v df))" for r'
  proof (cases "c \<in> set (df_columns df)")
    case True
    with that obtain r where r: "r \<in> set (df_rows df)"
      "r' = map (\<lambda>(n, x). if n = c then v else x) (zip (df_columns df) r)"
      by (auto simp: set_column_def)
    from assms r(1) have "length (df_columns df) = length r" by (simp add: wf_frame_def)
    from map_of_overwrite[OF this True] True r(2) show ?thesis
      by (simp add: set_column_def cell_at_def)
  next
    case False
    with that obtain r where r: "r \<in> set (df_rows df)" "r' = r @ [v]"
      by (auto simp: set_column_def)
    from assms r(1) have l: "length (df_columns df) = length r" by (simp add: wf_frame_def)
    from cell_at_appended[OF l False, of v c] False r(2) show ?thesis
      by (simp add: set_column_def)
  qed
  then have "map (\<lambda>r. cell_at (df_columns (set_column c v df)) r c) (df_rows (set_column c v df))
      = replicate (length (df_rows (set_column c v df))) v"
    by (simp add: map_replicate_const[symmetric] cong: map_cong)
  then show ?thesis by (simp add: column_values_def length_rows_set_column)
qed

lemma column_values_set_column_other:
  assumes "wf_frame df" "c' \<noteq> c"
  shows "column_values (set_column c v df) c' = column_values df c'"
proof (cases "c \<in> set (df_columns df)")
  case True
  have "cell_at (df_columns df) (map (\<lambda>(n, x). if n = c then v else x) (zip (df_columns df) r)) c'
      = cell_at (df_columns df) r c'" if "r \<in> set (df_rows df)" for r
  proof -
    from assms(1) that have "length (df_columns df) = length r" by (simp add: wf_frame_def)
    from map_of_overwrite_other[OF this assms(2)] show ?thesis by (simp add: cell_at_def)
  qed
  with True show ?thesis by (simp add: column_values_def set_column_def comp_def)
next
  case False
  have "cell_at (df_columns df @ [c]) (r @ [v]) c' = cell_at (df_columns df) r c'"
    if "r \<in> set (df_rows df)" for r
  proof -
    from assms(1) that have "length (df_columns df) = length r" by (simp add: wf_frame_def)
    from cell_at_appended[OF this False, of v c'] assms(2) show ?thesis by simp
  qed
  with False show ?thesis by (simp add: column_values_def set_column_def comp_def)
qed

lemma read_sheets_ok:
  "map (\<lambda>(n, outs). (n, rd outs)) workbook = map (\<lambda>(n, d). (n, Some d)) sheets \<Longrightarrow>
   read_sheets rd workbook = Some (map (\<lambda>(n, d). set_column ''_sheet_name'' (Str n) d) sheets)"
proof (induction workbook arbitrary: sheets)
  case Nil
  then show ?case by simp
next
  case (Cons w workbook)
  obtain n outs where w: "w = (n, outs)" by (cases w)
  from Cons.prems w obtain d rest where s: "sheets = (n, d) # rest" "rd outs = Some d"
    "map (\<lambda>(n, outs). (n, rd outs)) workbook = map (\<lambda>(n, d). (n, Some d)) rest"
    by (cases sheets) auto
  from Cons.IH[OF s(3)] s(1,2) w show ?case by simp
qed

lemma tagged_row_counts:
  "sum_list (map (\<lambda>df. length (df_rows df)) (map (\<lambda>(n, d). set_column c (Str n) d) sheets))
   = sum_list (map (\<lambda>(n, d). length (df_rows d)) sheets)"
  by (induction sheets) (auto simp: length_rows_set_column)

lemma tagged_tag_values:
  "\<forall>(n, d) \<in> set sheets. wf_frame d \<Longrightarrow>
   concat (map (\<lambda>df. column_values df c) (map (\<lambda>(n, d). set_column c (Str n) d) sheets))
   = concat (map (\<lambda>(n, d). replicate (length (df_rows d)) (Str n)) sheets)"
  by (induction sheets) (auto simp: column_values_set_column_same)

lemma tagged_other_values:
  "\<forall>(n, d) \<in> set sheets. wf_frame d \<Longrightarrow> c' \<noteq> c \<Longrightarrow>
   concat (map (\<lambda>df. column_values df c') (map (\<lambda>(n, d). set_column c (Str n) d) sheets))
   = concat (map (\<lambda>(n, d). column_values d c') sheets)"
  by (induction sheets) (auto simp: column_values_set_column_other)

lemma build_dataframe_ok:
  assumes "map (\<lambda>(n, outs). (n, rd outs)) workbook = map (\<lambda>(n, d). (n, Some d)) sheets"
      and "sheets \<noteq> []"
  shows "\<exists>staged. build_dataframe rd workbook = Some staged
      \<and> length (df_rows staged)
          = sum_list (map (\<lambda>df. length (df_rows df)) (map (\<lambda>(n, d). set_column ''_sheet_name'' (Str n) d) sheets))
      \<and> (\<forall>c. column_values staged c
          = concat (map (\<lambda>df. column_values df c) (map (\<lambda>(n, d). set_column ''_sheet_name'' (Str n) d) sheets)))
      \<and> (if length sheets > 1
          then staged = concat_frames (map (\<lambda>(n, d). set_column ''_sheet_name'' (Str n) d) sheets)
          else [staged] = map (\<lambda>(n, d). set_column ''_sheet_name'' (Str n) d) sheets)"
proof -
  let ?tagged = "map (\<lambda>(n, d). set_column ''_sheet_name'' (Str n) d) sheets"
  have r: "read_sheets rd workbook = Some ?tagged" by (rule read_sheets_ok[OF assms(1)])
  show ?thesis
  proof (cases "length sheets > 1")
    case True
    then have "build_dataframe rd workbook = Some (concat_frames ?tagged)"
      by (simp add: build_dataframe_def r)
    with True show ?thesis
      by (simp add: length_rows_concat column_values_concat)
  next
    case False
    with assms(2) obtain s where s: "sheets = [s]"
      by (cases sheets) (auto simp: Suc_le_eq)
    obtain n d where nd: "s = (n, d)" by (cases s)
    from s nd have "build_dataframe rd workbook = Some (set_column ''_sheet_name'' (Str n) d)"
      by (simp add: build_dataframe_def r)
    with s nd show ?thesis by simp
  qed
qed

text \<open>
  Let the sheets of a workbook be read as the well-formed frames \<open>sheets\<close>, in source
  order and at least one. Then ingestion builds a frame whose row count is the sum of the
  sheets' row counts; whose \<^verbatim>\<open>_sheet_name\<close> column holds, row by row, the name of the
  sheet the row came from; and whose every other column is the concatenation, in sheet
  order, of the sheets' columns of that name: rows keep their order within a sheet and
  sheets keep the source order.
\<close>

lemma build_dataframe_rows_by_sheet:
  assumes "map (\<lambda>(n, outs). (n, rd outs)) workbook = map (\<lambda>(n, d). (n, Some d)) sheets"
      and "sheets \<noteq> []"
      and "\<forall>(n, d) \<in> set sheets. wf_frame d"
  shows "\<exists>staged. build_dataframe rd workbook = Some staged
      \<and> length (df_rows staged) = sum_list (map (\<lambda>(n, d). length (df_rows d)) sheets)
      \<and> column_values staged ''_sheet_name''
          = concat (map (\<lambda>(n, d). replicate (length (df_rows d)) (Str n)) sheets)
      \<and> (\<forall>c. c \<noteq> ''_sheet_name'' \<longrightarrow>
            column_values staged c = concat (map (\<lambda>(n, d). column_values d c) sheets))"
proof -
  from build_dataframe_ok[OF assms(1,2)] obtain staged where
    st: "build_dataframe rd workbook = Some staged"
      "length (df_rows staged)
          = sum_list (map (\<lambda>df. length (df_rows df)) (map (\<lambda>(n, d). set_column ''_sheet_name'' (Str n) d) sheets))"
      "\<And>c. column_values staged c
          = concat (map (\<lambda>df. column_values df c) (map (\<lambda>(n, d). set_column ''_sheet_name'' (Str n) d) sheets))"
    by blast
  have 1: "length (df_rows staged) = sum_list (map (\<lambda>(n, d). length (df_rows d)) sheets)"
    unfolding st(2) by (rule tagged_row_counts)
  have 2: "column_values staged ''_sheet_name''
      = concat (map (\<lambda>(n, d). replicate (length (df_rows d)) (Str n)) sheets)"
    unfolding st(3) by (rule tagged_tag_values[OF assms(3)])
  have 3: "column_values staged c = concat (map (\<lambda>(n, d). column_values d c) sheets)"
    if "c \<noteq> ''_sheet_name''" for c
    unfolding st(3) by (rule tagged_other_values[OF assms(3) that])
  from st(1) 1 2 3 show ?thesis by blast
qed

lemma build_dataframe_rows_by_sheet_example:
  "\<exists>staged. build_dataframe (read_with_retry 3)
        [(''2023'', [None, Some \<lparr>df_columns = [''id'', ''amount''], df_rows = [[Num 1, Num 10], [Num 2, Num 20]]\<rparr>]),
         (''2024'', [Some \<lparr>df_columns = [''id'', ''amount''], df_rows = [[Num 3, Num 30]]\<rparr>])] = Some staged
      \<and> length (df_rows staged) = 2 + 1
      \<and> column_values staged ''_sheet_name'' = [Str ''2023'', Str ''2023'', Str ''2024'']
      \<and> column_values staged ''amount'' = [Num 10, Num 20, Num 30]"
proof -
  let ?a = "\<lparr>df_columns = [''id'', ''amount''], df_rows = [[Num 1, Num 10], [Num 2, Num 20]]\<rparr>"
  let ?b = "\<lparr>df_columns = [''id'', ''amount''], df_rows = [[Num 3, Num 30]]\<rparr>"
  let ?wb = "[(''2023'', [None, Some ?a]), (''2024'', [Some ?b])]"
  let ?sheets = "[(''2023'', ?a), (''2024'', ?b)]"
  have h1: "map (\<lambda>(n, outs). (n, read_with_retry 3 outs)) ?wb = map (\<lambda>(n, d). (n, Some d)) ?sheets"
    by (simp add: numeral_3_eq_3)
  have h2: "?sheets \<noteq> []" by simp
  have h3: "\<forall>(n, d) \<in> set ?sheets. wf_frame d" by (simp add: wf_frame_def)
  from build_dataframe_rows_by_sheet[OF h1 h2 h3] obtain staged where
    st: "build_dataframe (read_with_retry 3) ?wb = Some staged"
      "length (df_rows staged) = sum_list (map (\<lambda>(n, d). length (df_rows d)) ?sheets)"
      "column_values staged ''_sheet_name''
          = concat (map (\<lambda>(n, d). replicate (length (df_rows d)) (Str n)) ?sheets)"
      "\<forall>c. c \<noteq> ''_sheet_name'' \<longrightarrow>
            column_values staged c = concat (map (\<lambda>(n, d). column_values d c) ?sheets)"
    by blast
  from st(4) have "column_values staged ''amount'' = concat (map (\<lambda>(n, d). column_values d ''amount'') ?sheets)"
    by simp
  then have 4: "column_values staged ''amount'' = [Num 10, Num 20, Num 30]"
    by (simp add: column_values_def cell_at_def)
  from st(2) have 2: "length (df_rows staged) = 2 + 1" by simp
  from st(3) have 3: "column_values staged ''_sheet_name'' = [Str ''2023'', Str ''2023'', Str ''2024'']"
    by (simp add: numeral_2_eq_2)
  from st(1) 2 3 4 show ?thesis by blast
qed

lemma uniq_all_seen: "set zs \<subseteq> set seen \<Longrightarrow> uniq seen zs = []"
  by (induction zs) auto

lemma uniq_append_fresh:
  "distinct ys \<Longrightarrow> set ys \<inter> set seen = {} \<Longrightarrow> uniq seen (ys @ zs) = ys @ uniq (rev ys @ seen) zs"
proof (induction ys arbitrary: seen)
  case Nil
  then show ?case by simp
next
  case (Cons y ys)
  from Cons.prems have "distinct ys" "set ys \<inter> set (y # seen) = {}" "y \<notin> set seen" by auto
  with Cons.IH[of "y # seen"] show ?case by simp
qed

lemma uniq_same_columns:
  assumes "\<forall>df \<in> set dfs. df_columns df = C" "dfs \<noteq> []" "distinct C"
  shows "uniq [] (concat (map df_columns dfs)) = C"
proof -
  from assms(2) obtain d ds where d: "dfs = d # ds" by (cases dfs) auto
  with assms(1) have c: "concat (map df_columns dfs) = C @ concat (map df_columns ds)" by simp
  from assms(1) d have "set (concat (map df_columns ds)) \<subseteq> set (rev C @ [])" by auto
  then have "uniq (rev C @ []) (concat (map df_columns ds)) = []" by (rule uniq_all_seen)
  with uniq_append_fresh[OF assms(3), of "[]" "concat (map df_columns ds)"] c show ?thesis by simp
qed

lemma tag_in_set_column: "c \<in> set (df_columns (set_column c v df))"
  by (simp add: set_column_def)

lemma columns_set_column_new:
  "c \<notin> set (df_columns df) \<Longrightarrow> df_columns (set_column c v df) = df_columns df @ [c]"
  by (simp add: set_column_def)

text \<open>
  For every workbook whose sheets are read, also one with a single sheet, the frame that
  ingestion builds has the column \<^verbatim>\<open>_sheet_name\<close>, and it holds for every row the name of
  the row's sheet. When all sheets have the same distinct columns \<open>cols\<close>, none of them
  named \<^verbatim>\<open>_sheet_name\<close>, the frame has exactly one column more: \<open>cols\<close> followed by
  \<^verbatim>\<open>_sheet_name\<close>.
\<close>

lemma build_dataframe_sheet_tag:
  assumes "map (\<lambda>(n, outs). (n, rd outs)) workbook = map (\<lambda>(n, d). (n, Some d)) sheets"
      and "sheets \<noteq> []"
      and "\<forall>(n, d) \<in> set sheets. wf_frame d"
  shows "\<exists>staged. build_dataframe rd workbook = Some staged
      \<and> ''_sheet_name'' \<in> set (df_columns staged)
      \<and> column_values staged ''_sheet_name''
          = concat (map (\<lambda>(n, d). replicate (length (df_rows d)) (Str n)) sheets)
      \<and> ((\<forall>(n, d) \<in> set sheets. df_columns d = cols) \<and> distinct cols \<and> ''_sheet_name'' \<notin> set cols
           \<longrightarrow> df_columns staged = cols @ [''_sheet_name''])"
proof -
  let ?tagged = "map (\<lambda>(n, d). set_column ''_sheet_name'' (Str n) d) sheets"
  from build_dataframe_ok[OF assms(1,2)] obtain staged where
    st: "build_dataframe rd workbook = Some staged"
      "\<And>c. column_values staged c = concat (map (\<lambda>df. column_values df c) ?tagged)"
      "if length sheets > 1 then staged = concat_frames ?tagged else [staged] = ?tagged"
    by blast
  have tagged_ne: "?tagged \<noteq> []" using assms(2) by simp
  have all_tag: "\<forall>df \<in> set ?tagged. ''_sheet_name'' \<in> set (df_columns df)"
    by (auto simp: tag_in_set_column)
  have 1: "''_sheet_name'' \<in> set (df_columns staged)"
  proof (cases "length sheets > 1")
    case True
    with st(3) have "set (df_columns staged) = (\<Union>df \<in> set ?tagged. set (df_columns df))"
      by (simp add: concat_frames_def Let_def set_uniq)
    with all_tag tagged_ne show ?thesis by (cases ?tagged) auto
  next
    case False
    with st(3) have "staged \<in> set ?tagged" by (metis list.set_intros(1))
    with all_tag show ?thesis by blast
  qed
  have 2: "column_values staged ''_sheet_name''
      = concat (map (\<lambda>(n, d). replicate (length (df_rows d)) (Str n)) sheets)"
    unfolding st(2) by (rule tagged_tag_values[OF assms(3)])
  have 3: "df_columns staged = cols @ [''_sheet_name'']"
    if h: "\<forall>(n, d) \<in> set sheets. df_columns d = cols" "distinct cols" "''_sheet_name'' \<notin> set cols"
  proof -
    from h(1,3) have same: "\<forall>df \<in> set ?tagged. df_columns df = cols @ [''_sheet_name'']"
      by (auto simp: columns_set_column_new)
    from h(2,3) have dist: "distinct (cols @ [''_sheet_name''])" by simp
    show ?thesis
    proof (cases "length sheets > 1")
      case True
      with st(3) have "df_columns staged = uniq [] (concat (map df_columns ?tagged))"
        by (simp add: concat_frames_def Let_def)
      with uniq_same_columns[OF same tagged_ne dist] show ?thesis by simp
    next
      case False
      with st(3) have "staged \<in> set ?tagged" by (metis list.set_intros(1))
      with same show ?thesis by blast
    qed
  qed
  from st(1) 1 2 3 show ?thesis by blast
qed

section \<open>Properties of the cache and the staging store\<close>

lemma foldl_chunks: "0 < n \<Longrightarrow> foldl (\<lambda>h chunk. h @ chunk) acc (chunks n xs) = acc @ xs"
proof (induction n xs arbitrary: acc rule: chunks.induct)
  case (1 n xs)
  show ?case
  proof (cases "xs = []")
    case True
    then show ?thesis by (subst chunks.simps) simp
  next
    case False
    with "1.prems" have "chunks n xs = take n xs # chunks n (drop n xs)"
      by (simp add: chunks.simps[of n xs])
    moreover from "1.IH"[of "acc @ take n xs"] "1.prems" False
    have "foldl (\<lambda>h chunk. h @ chunk) (acc @ take n xs) (chunks n (drop n xs)) = (acc @ take n xs) @ drop n xs"
      by simp
    ultimately show ?thesis by simp
  qed
qed

text \<open>Reading in chunks does not matter: the fingerprint is the digest of the content.\<close>

lemma get_file_hash_content: "get_file_hash digest content = digest content"
  by (simp add: get_file_hash_def foldl_chunks)

lemma append_chunks_table:
  "db_files w db_file = Some t \<Longrightarrow>
   db_files (append_chunks db_file cols rest w) db_file = Some (t\<lparr>df_rows := df_rows t @ rest\<rparr>)"
proof (induction db_file cols rest w arbitrary: t rule: append_chunks.induct)
  case (1 db_file cols rest w)
  show ?case
  proof (cases "rest = []")
    case True
    with "1.prems" show ?thesis by (subst append_chunks.simps) simp
  next
    case False
    let ?w' = "to_sql_append db_file \<lparr>df_columns = cols, df_rows = take chunk_size rest\<rparr> w"
    from "1.prems" have "db_files ?w' db_file = Some (t\<lparr>df_rows := df_rows t @ take chunk_size rest\<rparr>)"
      by (simp add: to_sql_append_def)
    from "1.IH"[OF False this] False show ?thesis
      by (simp add: append_chunks.simps[of db_file cols rest w])
  qed
qed

text \<open>Writing the table, in one call or in chunks, stores the frame as it is.\<close>

lemma write_table_stores: "db_files (write_table s db_file df w) db_file = Some df"
proof (cases s)
  case AnswerPy
  then show ?thesis by (simp add: to_sql_replace_def)
next
  case TableFileAnswerPy
  show ?thesis
  proof (cases "length (df_rows df) > chunk_size")
    case True
    let ?w' = "to_sql_replace db_file (df\<lparr>df_rows := take chunk_size (df_rows df)\<rparr>) w"
    have "db_files ?w' db_file = Some (df\<lparr>df_rows := take chunk_size (df_rows df)\<rparr>)"
      by (simp add: to_sql_replace_def)
    from append_chunks_table[OF this, of "df_columns df" "drop chunk_size (df_rows df)"] True TableFileAnswerPy
    show ?thesis by simp
  next
    case False
    with TableFileAnswerPy show ?thesis by (simp add: to_sql_replace_def)
  qed
qed

lemma load_dataframe_store: "db_files (snd (load_dataframe s cache k db wb w)) = db_files w"
  and load_dataframe_calls: "to_sql_calls (snd (load_dataframe s cache k db wb w)) = to_sql_calls w"
  and load_dataframe_files: "files (snd (load_dataframe s cache k db wb w)) = files w"
  by (auto split: option.splits)

text \<open>With caching enabled an existing store is never written: neither the fingerprint
  nor the workbook enters the test that decides it.\<close>

lemma stage_keeps_store:
  assumes "db_file_of file_path \<in> dom (db_files w)"
  shows "db_files (snd (stage s True file_path file_hash workbook db w)) = db_files w"
    and "to_sql_calls (snd (stage s True file_path file_hash workbook db w)) = to_sql_calls w"
proof -
  let ?db = "db_file_of file_path"
  let ?l = "load_dataframe s True (cache_key_of file_hash ?db) ?db workbook w"
  obtain r w1 where l: "?l = (r, w1)" by (cases ?l)
  from l have w1: "db_files w1 = db_files w" "to_sql_calls w1 = to_sql_calls w"
    using load_dataframe_store[of s True "cache_key_of file_hash ?db" ?db workbook w]
      load_dataframe_calls[of s True "cache_key_of file_hash ?db" ?db workbook w] by simp_all
  with assms have "?db \<in> dom (db_files w1)" by simp
  then have i: "snd (import_sqlite s True ?db db df w1) = w1" for df
    by (cases db) simp_all
  have "db_files (snd (stage s True file_path file_hash workbook db w)) = db_files w
      \<and> to_sql_calls (snd (stage s True file_path file_hash workbook db w)) = to_sql_calls w"
  proof (cases r)
    case None
    with l w1 show ?thesis by (simp add: Let_def del: load_dataframe.simps)
  next
    case (Some x)
    obtain df names where x: "x = (df, names)" by (cases x)
    obtain ok w2 where k: "import_sqlite s True ?db db df w1 = (ok, w2)"
      by (cases "import_sqlite s True ?db db df w1")
    with i[of df] have "w2 = w1" by simp
    with l w1 Some x k show ?thesis
      by (cases ok) (simp_all add: Let_def del: load_dataframe.simps import_sqlite.simps)
  qed
  then show "db_files (snd (stage s True file_path file_hash workbook db w)) = db_files w"
    and "to_sql_calls (snd (stage s True file_path file_hash workbook db w)) = to_sql_calls w"
    by simp_all
qed

lemma stage_success_store_exists:
  assumes "stage s cache file_path file_hash workbook db w = (Inr r, w')"
  shows "db_file_of file_path \<in> dom (db_files w')"
proof -
  let ?db = "db_file_of file_path"
  let ?l = "load_dataframe s cache (cache_key_of file_hash ?db) ?db workbook w"
  obtain q w1 where l: "?l = (q, w1)" by (cases ?l)
  from assms l obtain df names where q: "q = Some (df, names)"
    and i: "import_sqlite s cache ?db db df w1 = (True, w')"
    by (cases q) (auto simp: Let_def simp del: load_dataframe.simps import_sqlite.simps
        split: prod.splits bool.splits)
  from i show "?db \<in> dom (db_files w')"
    using write_table_stores[of s ?db df w1] by (cases db) (auto split: if_splits)
qed

text \<open>A run that writes the store (without \<^verbatim>\<open>--cache\<close>, or when no store of that name
  exists) stages the frame it read: the table of the store is that frame.\<close>

lemma stage_writes_frame:
  assumes "\<not> cache \<or> db_file_of file_path \<notin> dom (db_files w)"
    and "build_dataframe (reader s) workbook = Some df"
  shows "fst (stage s cache file_path file_hash (Some workbook) DbOk w) = Inr (df, map fst workbook)"
    and "db_files (snd (stage s cache file_path file_hash (Some workbook) DbOk w)) (db_file_of file_path)
           = Some df"
proof -
  let ?db = "db_file_of file_path"
  let ?k = "cache_key_of file_hash ?db"
  let ?w1 = "if cache then w\<lparr>file_cache := (file_cache w)(?k \<mapsto> (df, map fst workbook))\<rparr> else w"
  from assms have l: "load_dataframe s cache ?k ?db (Some workbook) w = (Some (df, map fst workbook), ?w1)"
    by auto
  from assms(1) have "\<not> cache \<or> ?db \<notin> dom (db_files ?w1)" by auto
  then have i: "import_sqlite s cache ?db DbOk df ?w1 = (True, write_table s ?db df ?w1)"
    by simp
  have st: "stage s cache file_path file_hash (Some workbook) DbOk w
              = (Inr (df, map fst workbook), write_table s ?db df ?w1)"
    using l i by (simp add: Let_def del: load_dataframe.simps import_sqlite.simps)
  show "fst (stage s cache file_path file_hash (Some workbook) DbOk w) = Inr (df, map fst workbook)"
    unfolding st by simp
  show "db_files (snd (stage s cache file_path file_hash (Some workbook) DbOk w)) ?db = Some df"
    unfolding st by (simp add: write_table_stores)
qed

lemma db_file_of_basename: "basename p2 = basename p1 \<Longrightarrow> db_file_of p2 = db_file_of p1"
  by (simp add: db_file_of_def)

text \<open>
  C1 fails on the code. A one-sheet file is ingested with caching enabled, its cell changes
  from 1 to 2 (and with it the fingerprint), and the file is ingested again under the same
  path with caching enabled, in a new process or in the same one. The second run reads the
  new content into its frame, but the store still holds the old relation and
  \<^verbatim>\<open>to_sql\<close> was called once in all: the store is not rebuilt.
\<close>

theorem stale_store_after_modification:
  "fst (stage AnswerPy True ''data.xlsx'' ''aaaa'' (Some sheet_v1) DbOk empty_world)
     = Inr (\<lparr>df_columns = [''v'', ''_sheet_name''], df_rows = [[Num 1, Str ''S'']]\<rparr>, [''S''])
   \<and> fst (stage AnswerPy True ''data.xlsx'' ''bbbb'' (Some sheet_v2) DbOk
        (new_process (snd (stage AnswerPy True ''data.xlsx'' ''aaaa'' (Some sheet_v1) DbOk empty_world))))
     = Inr (\<lparr>df_columns = [''v'', ''_sheet_name''], df_rows = [[Num 2, Str ''S'']]\<rparr>, [''S''])
   \<and> db_files (snd (stage AnswerPy True ''data.xlsx'' ''bbbb'' (Some sheet_v2) DbOk
        (new_process (snd (stage AnswerPy True ''data.xlsx'' ''aaaa'' (Some sheet_v1) DbOk empty_world)))))
        (db_file_of ''data.xlsx'')
     = Some \<lparr>df_columns = [''v'', ''_sheet_name''], df_rows = [[Num 1, Str ''S'']]\<rparr>
   \<and> db_files (snd (stage AnswerPy True ''data.xlsx'' ''bbbb'' (Some sheet_v2) DbOk
        (snd (stage AnswerPy True ''data.xlsx'' ''aaaa'' (Some sheet_v1) DbOk empty_world))))
        (db_file_of ''data.xlsx'')
     = Some \<lparr>df_columns = [''v'', ''_sheet_name''], df_rows = [[Num 1, Str ''S'']]\<rparr>
   \<and> to_sql_calls (snd (stage AnswerPy True ''data.xlsx'' ''bbbb'' (Some sheet_v2) DbOk
        (new_process (snd (stage AnswerPy True ''data.xlsx'' ''aaaa'' (Some sheet_v1) DbOk empty_world))))) = 1"
  by (simp add: sheet_v1_def sheet_v2_def empty_world_def new_process_def db_file_of_def cache_key_of_def
      basename_def replace_char_def build_dataframe_def set_column_def to_sql_replace_def Let_def)

lemma new_process_store:
  "db_files (new_process w) = db_files w" "to_sql_calls (new_process w) = to_sql_calls w"
  by (simp_all add: new_process_def)

text \<open>
  C3 (as amended). Two files with the same bytes have the same fingerprint, the digest of
  the bytes, whatever their paths. With caching enabled, once the content was staged from
  one path, ingesting it from a path that gives the same store name leaves every store as
  it is and makes no call of \<^verbatim>\<open>to_sql\<close>, in the process that staged it and in a new
  process: the existing store is reused and no row is inserted again.
\<close>

theorem same_content_same_fingerprint_and_store:
  assumes "files w0 p1 = Some content" "files w0 p2 = Some content"
      and "db_file_of p2 = db_file_of p1"
      and "stage s True p1 (get_file_hash digest content) wb1 db1 w0 = (Inr r1, w1)"
  shows "file_hash_at digest w0 p1 = Some (digest content)
       \<and> file_hash_at digest w0 p2 = file_hash_at digest w0 p1
       \<and> db_files (snd (stage s True p2 (get_file_hash digest content) wb2 db2 w1)) = db_files w1
       \<and> to_sql_calls (snd (stage s True p2 (get_file_hash digest content) wb2 db2 w1)) = to_sql_calls w1
       \<and> db_files (snd (stage s True p2 (get_file_hash digest content) wb2 db2 (new_process w1)))
           = db_files w1
       \<and> to_sql_calls (snd (stage s True p2 (get_file_hash digest content) wb2 db2 (new_process w1)))
           = to_sql_calls w1"
proof -
  from assms(1,2) have h: "file_hash_at digest w0 p1 = Some (digest content)"
    "file_hash_at digest w0 p2 = file_hash_at digest w0 p1"
    by (simp_all add: file_hash_at_def get_file_hash_content)
  from stage_success_store_exists[OF assms(4)] assms(3)
  have e: "db_file_of p2 \<in> dom (db_files w1)" by simp
  then have e': "db_file_of p2 \<in> dom (db_files (new_process w1))" by (simp add: new_process_store)
  from stage_keeps_store[OF e] stage_keeps_store[OF e'] h show ?thesis
    by (simp add: new_process_store)
qed

theorem same_content_same_fingerprint_and_store_witness:
  "files two_names ''/tmp/a/data.xlsx'' = Some ''PK-bytes''
   \<and> files two_names ''/tmp/b/data_xlsx'' = Some ''PK-bytes''
   \<and> db_file_of ''/tmp/b/data_xlsx'' = db_file_of ''/tmp/a/data.xlsx''
   \<and> fst (stage AnswerPy True ''/tmp/a/data.xlsx'' (get_file_hash rev ''PK-bytes'') (Some sheet_v1) DbOk two_names)
     = Inr (\<lparr>df_columns = [''v'', ''_sheet_name''], df_rows = [[Num 1, Str ''S'']]\<rparr>, [''S''])
   \<and> file_hash_at rev two_names ''/tmp/a/data.xlsx'' = Some (rev ''PK-bytes'')
   \<and> file_hash_at rev two_names ''/tmp/b/data_xlsx'' = file_hash_at rev two_names ''/tmp/a/data.xlsx''
   \<and> db_files (snd (stage AnswerPy True ''/tmp/b/data_xlsx'' (get_file_hash rev ''PK-bytes'') (Some sheet_v1) DbOk
        (snd (stage AnswerPy True ''/tmp/a/data.xlsx'' (get_file_hash rev ''PK-bytes'') (Some sheet_v1) DbOk two_names))))
     = db_files (snd (stage AnswerPy True ''/tmp/a/data.xlsx'' (get_file_hash rev ''PK-bytes'') (Some sheet_v1) DbOk two_names))
   \<and> to_sql_calls (snd (stage AnswerPy True ''/tmp/b/data_xlsx'' (get_file_hash rev ''PK-bytes'') (Some sheet_v1) DbOk
        (snd (stage AnswerPy True ''/tmp/a/data.xlsx'' (get_file_hash rev ''PK-bytes'') (Some sheet_v1) DbOk two_names))))
     = to_sql_calls (snd (stage AnswerPy True ''/tmp/a/data.xlsx'' (get_file_hash rev ''PK-bytes'') (Some sheet_v1) DbOk two_names))
   \<and> db_files (snd (stage AnswerPy True ''/tmp/b/data_xlsx'' (get_file_hash rev ''PK-bytes'') (Some sheet_v1) DbOk
        (new_process (snd (stage AnswerPy True ''/tmp/a/data.xlsx'' (get_file_hash rev ''PK-bytes'') (Some sheet_v1) DbOk two_names)))))
     = db_files (snd (stage AnswerPy True ''/tmp/a/data.xlsx'' (get_file_hash rev ''PK-bytes'') (Some sheet_v1) DbOk two_names))
   \<and> to_sql_calls (snd (stage AnswerPy True ''/tmp/b/data_xlsx'' (get_file_hash rev ''PK-bytes'') (Some sheet_v1) DbOk
        (new_process (snd (stage AnswerPy True ''/tmp/a/data.xlsx'' (get_file_hash rev ''PK-bytes'') (Some sheet_v1) DbOk two_names)))))
     = to_sql_calls (snd (stage AnswerPy True ''/tmp/a/data.xlsx'' (get_file_hash rev ''PK-bytes'') (Some sheet_v1) DbOk two_names))
   \<and> to_sql_calls (snd (stage AnswerPy True ''/tmp/a/data.xlsx'' (get_file_hash rev ''PK-bytes'') (Some sheet_v1) DbOk two_names)) = 1"
proof -
  let ?st = "stage AnswerPy True ''/tmp/a/data.xlsx'' (get_file_hash rev ''PK-bytes'') (Some sheet_v1) DbOk two_names"
  have h1: "files two_names ''/tmp/a/data.xlsx'' = Some ''PK-bytes''"
    and h2: "files two_names ''/tmp/b/data_xlsx'' = Some ''PK-bytes''"
    by (simp_all add: two_names_def empty_world_def)
  have h3: "db_file_of ''/tmp/b/data_xlsx'' = db_file_of ''/tmp/a/data.xlsx''"
    by (simp add: db_file_of_def basename_def replace_char_def)
  have f: "fst ?st = Inr (\<lparr>df_columns = [''v'', ''_sheet_name''], df_rows = [[Num 1, Str ''S'']]\<rparr>, [''S''])"
    by (simp add: sheet_v1_def two_names_def empty_world_def build_dataframe_def set_column_def Let_def)
  then have h4: "?st = (Inr (\<lparr>df_columns = [''v'', ''_sheet_name''], df_rows = [[Num 1, Str ''S'']]\<rparr>, [''S'']), snd ?st)"
    by (metis prod.collapse)
  have c: "to_sql_calls (snd ?st) = 1"
    by (simp add: sheet_v1_def two_names_def empty_world_def build_dataframe_def set_column_def
        to_sql_replace_def Let_def)
  from same_content_same_fingerprint_and_store[OF h1 h2 h3 h4, of "Some sheet_v1" DbOk] h1 h2 h3 f c
  show ?thesis by blast
qed

text \<open>
  C3 as stated fails: the store is named after the base name of the path, so the same
  content under \<^verbatim>\<open>copy.xlsx\<close> is written again, into a second store.
\<close>

theorem other_basename_new_store_counterexample:
  "to_sql_calls (snd (stage AnswerPy True ''/tmp/a/data.xlsx'' ''aaaa'' (Some sheet_v1) DbOk empty_world)) = 1
   \<and> to_sql_calls (snd (stage AnswerPy True ''/tmp/b/copy.xlsx'' ''aaaa'' (Some sheet_v1) DbOk
        (snd (stage AnswerPy True ''/tmp/a/data.xlsx'' ''aaaa'' (Some sheet_v1) DbOk empty_world)))) = 2
   \<and> db_file_of ''/tmp/a/data.xlsx'' = ''temp_db_data_xlsx.sqlite''
   \<and> db_file_of ''/tmp/b/copy.xlsx'' = ''temp_db_copy_xlsx.sqlite''
   \<and> db_files (snd (stage AnswerPy True ''/tmp/b/copy.xlsx'' ''aaaa'' (Some sheet_v1) DbOk
        (snd (stage AnswerPy True ''/tmp/a/data.xlsx'' ''aaaa'' (Some sheet_v1) DbOk empty_world))))
        ''temp_db_copy_xlsx.sqlite''
     = Some \<lparr>df_columns = [''v'', ''_sheet_name''], df_rows = [[Num 1, Str ''S'']]\<rparr>
   \<and> db_files (snd (stage AnswerPy True ''/tmp/a/data.xlsx'' ''aaaa'' (Some sheet_v1) DbOk empty_world))
        ''temp_db_copy_xlsx.sqlite'' = None"
  by (simp add: sheet_v1_def empty_world_def db_file_of_def cache_key_of_def
      basename_def replace_char_def build_dataframe_def set_column_def to_sql_replace_def Let_def)

text \<open>
  A run that writes the store stages the rows sheet by sheet: the table of the store has
  the sum of the sheets' row counts, its \<^verbatim>\<open>_sheet_name\<close> column holds the name of the
  sheet of every row, and every other column is the concatenation of the sheets' columns
  in sheet order.
\<close>

lemma fresh_store_rows_by_sheet:
  assumes "map (\<lambda>(n, outs). (n, reader s outs)) workbook = map (\<lambda>(n, d). (n, Some d)) sheets"
      and "sheets \<noteq> []"
      and "\<forall>(n, d) \<in> set sheets. wf_frame d"
      and "\<not> cache \<or> db_file_of file_path \<notin> dom (db_files w)"
  shows "\<exists>staged.
        db_files (snd (stage s cache file_path file_hash (Some workbook) DbOk w)) (db_file_of file_path)
          = Some staged
      \<and> length (df_rows staged) = sum_list (map (\<lambda>(n, d). length (df_rows d)) sheets)
      \<and> column_values staged ''_sheet_name''
          = concat (map (\<lambda>(n, d). replicate (length (df_rows d)) (Str n)) sheets)
      \<and> (\<forall>c. c \<noteq> ''_sheet_name'' \<longrightarrow>
            column_values staged c = concat (map (\<lambda>(n, d). column_values d c) sheets))"
proof -
  from build_dataframe_rows_by_sheet[OF assms(1-3)] obtain staged where
    st: "build_dataframe (reader s) workbook = Some staged"
      "length (df_rows staged) = sum_list (map (\<lambda>(n, d). length (df_rows d)) sheets)"
      "column_values staged ''_sheet_name''
          = concat (map (\<lambda>(n, d). replicate (length (df_rows d)) (Str n)) sheets)"
      "\<forall>c. c \<noteq> ''_sheet_name'' \<longrightarrow>
            column_values staged c = concat (map (\<lambda>(n, d). column_values d c) sheets)"
    by blast
  from stage_writes_frame(2)[OF assms(4) st(1)] st(2-4) show ?thesis by blast
qed

text \<open>
  C7 fails on the code. A workbook with one sheet of one row is ingested with caching
  enabled; it gains a row and a second sheet of one row, and is ingested again under the
  same path with caching enabled, in a new process. The second run builds the frame with
  the three rows, each tagged with its sheet, but the staged relation is still the old one:
  one row, not the sum of the sheets' row counts, and no row of sheet \<^verbatim>\<open>B\<close>. This is so
  in \<^verbatim>\<open>answer.py\<close> and in \<^verbatim>\<open>table_file_answer.py\<close>; without \<^verbatim>\<open>--cache\<close> the three rows are
  staged.
\<close>

theorem stale_store_rows_not_by_sheet:
  "fst (stage AnswerPy True ''book.xlsx'' ''aaaa'' (Some book_v1) DbOk empty_world)
     = Inr (\<lparr>df_columns = [''id'', ''_sheet_name''], df_rows = [[Num 1, Str ''A'']]\<rparr>, [''A''])
   \<and> fst (stage AnswerPy True ''book.xlsx'' ''bbbb'' (Some book_v2) DbOk
        (new_process (snd (stage AnswerPy True ''book.xlsx'' ''aaaa'' (Some book_v1) DbOk empty_world))))
     = Inr (\<lparr>df_columns = [''id'', ''_sheet_name''],
            df_rows = [[Num 1, Str ''A''], [Num 2, Str ''A''], [Num 3, Str ''B'']]\<rparr>, [''A'', ''B''])
   \<and> db_files (snd (stage AnswerPy True ''book.xlsx'' ''bbbb'' (Some book_v2) DbOk
        (new_process (snd (stage AnswerPy True ''book.xlsx'' ''aaaa'' (Some book_v1) DbOk empty_world)))))
        (db_file_of ''book.xlsx'')
     = Some \<lparr>df_columns = [''id'', ''_sheet_name''], df_rows = [[Num 1, Str ''A'']]\<rparr>
   \<and> db_files (snd (stage TableFileAnswerPy True ''book.xlsx'' ''bbbb'' (Some book_v2) DbOk
        (new_process (snd (stage TableFileAnswerPy True ''book.xlsx'' ''aaaa'' (Some book_v1) DbOk empty_world)))))
        (db_file_of ''book.xlsx'')
     = Some \<lparr>df_columns = [''id'', ''_sheet_name''], df_rows = [[Num 1, Str ''A'']]\<rparr>
   \<and> db_files (snd (stage AnswerPy False ''book.xlsx'' ''bbbb'' (Some book_v2) DbOk
        (new_process (snd (stage AnswerPy True ''book.xlsx'' ''aaaa'' (Some book_v1) DbOk empty_world)))))
        (db_file_of ''book.xlsx'')
     = Some \<lparr>df_columns = [''id'', ''_sheet_name''],
              df_rows = [[Num 1, Str ''A''], [Num 2, Str ''A''], [Num 3, Str ''B'']]\<rparr>"
  by (simp add: book_v1_def book_v2_def empty_world_def new_process_def db_file_of_def cache_key_of_def
      basename_def replace_char_def build_dataframe_def concat_frames_def reindex_def cell_at_def
      set_column_def to_sql_replace_def chunk_size_def numeral_3_eq_3 Let_def)

text \<open>
  C10 (as amended). Let a run write the store: it runs without \<^verbatim>\<open>--cache\<close>, or no store
  of that name exists. For every workbook whose sheets are read, also one with a single
  sheet, the staged relation has the column \<^verbatim>\<open>_sheet_name\<close>, and it holds for every row
  the name of the row's sheet. When all sheets have the same distinct columns \<open>cols\<close>, none
  of them named \<^verbatim>\<open>_sheet_name\<close>, the staged relation has exactly one column more: \<open>cols\<close>
  followed by \<^verbatim>\<open>_sheet_name\<close>.
\<close>

theorem sheet_tag_always_added:
  assumes "map (\<lambda>(n, outs). (n, reader s outs)) workbook = map (\<lambda>(n, d). (n, Some d)) sheets"
      and "sheets \<noteq> []"
      and "\<forall>(n, d) \<in> set sheets. wf_frame d"
      and "\<not> cache \<or> db_file_of file_path \<notin> dom (db_files w)"
  shows "\<exists>staged.
        fst (stage s cache file_path file_hash (Some workbook) DbOk w) = Inr (staged, map fst workbook)
      \<and> db_files (snd (stage s cache file_path file_hash (Some workbook) DbOk w)) (db_file_of file_path)
          = Some staged
      \<and> ''_sheet_name'' \<in> set (df_columns staged)
      \<and> column_values staged ''_sheet_name''
          = concat (map (\<lambda>(n, d). replicate (length (df_rows d)) (Str n)) sheets)
      \<and> ((\<forall>(n, d) \<in> set sheets. df_columns d = cols) \<and> distinct cols \<and> ''_sheet_name'' \<notin> set cols
           \<longrightarrow> df_columns staged = cols @ [''_sheet_name''])"
proof -
  from build_dataframe_sheet_tag[OF assms(1-3), of cols] obtain staged where
    st: "build_dataframe (reader s) workbook = Some staged"
      "''_sheet_name'' \<in> set (df_columns staged)"
      "column_values staged ''_sheet_name''
          = concat (map (\<lambda>(n, d). replicate (length (df_rows d)) (Str n)) sheets)"
      "(\<forall>(n, d) \<in> set sheets. df_columns d = cols) \<and> distinct cols \<and> ''_sheet_name'' \<notin> set cols
           \<longrightarrow> df_columns staged = cols @ [''_sheet_name'']"
    by blast
  from stage_writes_frame[OF assms(4) st(1)] st(2-4) show ?thesis by blast
qed

theorem sheet_tag_always_added_witness:
  "db_file_of ''book.xlsx'' \<notin> dom (db_files empty_world)
   \<and> (\<exists>staged.
        fst (stage AnswerPy True ''book.xlsx'' ''aaaa''
          (Some [(''Sheet1'', [Some \<lparr>df_columns = [''id'', ''amount''], df_rows = [[Num 1, Num 10], [Num 2, Num 20]]\<rparr>])])
          DbOk empty_world) = Inr (staged, [''Sheet1''])
      \<and> db_files (snd (stage AnswerPy True ''book.xlsx'' ''aaaa''
          (Some [(''Sheet1'', [Some \<lparr>df_columns = [''id'', ''amount''], df_rows = [[Num 1, Num 10], [Num 2, Num 20]]\<rparr>])])
          DbOk empty_world)) (db_file_of ''book.xlsx'') = Some staged
      \<and> ''_sheet_name'' \<in> set (df_columns staged)
      \<and> column_values staged ''_sheet_name'' = [Str ''Sheet1'', Str ''Sheet1'']
      \<and> df_columns staged = [''id'', ''amount'', ''_sheet_name''])"
proof -
  let ?a = "\<lparr>df_columns = [''id'', ''amount''], df_rows = [[Num 1, Num 10], [Num 2, Num 20]]\<rparr>"
  let ?wb = "[(''Sheet1'', [Some ?a])]"
  let ?sheets = "[(''Sheet1'', ?a)]"
  have h1: "map (\<lambda>(n, outs). (n, reader AnswerPy outs)) ?wb = map (\<lambda>(n, d). (n, Some d)) ?sheets" by simp
  have h2: "?sheets \<noteq> []" by simp
  have h3: "\<forall>(n, d) \<in> set ?sheets. wf_frame d" by (simp add: wf_frame_def)
  have h0: "db_file_of ''book.xlsx'' \<notin> dom (db_files empty_world)" by (simp add: empty_world_def)
  then have h4: "\<not> True \<or> db_file_of ''book.xlsx'' \<notin> dom (db_files empty_world)" by simp
  from sheet_tag_always_added[OF h1 h2 h3 h4, of "''aaaa''" "[''id'', ''amount'']"] obtain staged where
    st: "fst (stage AnswerPy True ''book.xlsx'' ''aaaa'' (Some ?wb) DbOk empty_world) = Inr (staged, map fst ?wb)"
      "db_files (snd (stage AnswerPy True ''book.xlsx'' ''aaaa'' (Some ?wb) DbOk empty_world)) (db_file_of ''book.xlsx'')
         = Some staged"
      "''_sheet_name'' \<in> set (df_columns staged)"
      "column_values staged ''_sheet_name''
          = concat (map (\<lambda>(n, d). replicate (length (df_rows d)) (Str n)) ?sheets)"
      "(\<forall>(n, d) \<in> set ?sheets. df_columns d = [''id'', ''amount'']) \<and> distinct [''id'', ''amount'']
         \<and> ''_sheet_name'' \<notin> set [''id'', ''amount'']
           \<longrightarrow> df_columns staged = [''id'', ''amount''] @ [''_sheet_name'']"
    by blast
  from st(5) have 5: "df_columns staged = [''id'', ''amount'', ''_sheet_name'']" by simp
  from st(4) have 4: "column_values staged ''_sheet_name'' = [Str ''Sheet1'', Str ''Sheet1'']"
    by (simp add: numeral_2_eq_2)
  from st(1) have 1: "fst (stage AnswerPy True ''book.xlsx'' ''aaaa'' (Some ?wb) DbOk empty_world)
      = Inr (staged, [''Sheet1''])" by simp
  from h0 1 st(2,3) 4 5 show ?thesis by blast
qed

text \<open>
  C10 as stated fails: two sheets with different columns are staged with the union of the
  columns, two more than either sheet has; and a sheet that has a column
  \<^verbatim>\<open>_sheet_name\<close> of its own is staged with as many columns as it has, the cells of that
  column overwritten.
\<close>

theorem sheet_tag_column_count_counterexample:
  "db_files (snd (stage AnswerPy False ''book.xlsx'' ''aaaa''
        (Some [(''A'', [Some \<lparr>df_columns = [''x''], df_rows = [[Num 1]]\<rparr>]),
               (''B'', [Some \<lparr>df_columns = [''y''], df_rows = [[Num 2]]\<rparr>])])
        DbOk empty_world)) (db_file_of ''book.xlsx'')
     = Some \<lparr>df_columns = [''x'', ''_sheet_name'', ''y''],
              df_rows = [[Num 1, Str ''A'', NaN], [NaN, Str ''B'', Num 2]]\<rparr>
   \<and> length [''x'', ''_sheet_name'', ''y''] \<noteq> length [''x''] + 1
   \<and> length [''x'', ''_sheet_name'', ''y''] \<noteq> length [''y''] + 1
   \<and> db_files (snd (stage AnswerPy False ''own.xlsx'' ''aaaa''
        (Some [(''A'', [Some \<lparr>df_columns = [''x'', ''_sheet_name''], df_rows = [[Num 1, Str ''mine'']]\<rparr>])])
        DbOk empty_world)) (db_file_of ''own.xlsx'')
     = Some \<lparr>df_columns = [''x'', ''_sheet_name''], df_rows = [[Num 1, Str ''A'']]\<rparr>
   \<and> length [''x'', ''_sheet_name''] \<noteq> length [''x'', ''_sheet_name''] + 1"
  by (simp add: empty_world_def db_file_of_def cache_key_of_def basename_def replace_char_def
      build_dataframe_def concat_frames_def reindex_def cell_at_def set_column_def to_sql_replace_def Let_def)

section \<open>Properties of the runs\<close>

lemma drain_length:
  "length all_results + min 1 (length cursor)
     \<le> length (fst (drain columns now timeout k cursor all_results))"
proof (induction columns now timeout k cursor all_results rule: drain.induct)
  case (1 columns now timeout k cursor all_results)
  show ?case
  proof (cases "take BATCH_SIZE cursor = []")
    case True
    then have "cursor = []" by (simp add: BATCH_SIZE_def)
    then show ?thesis by (subst drain.simps) simp
  next
    case False
    then have ne: "cursor \<noteq> []" by auto
    then have len: "1 \<le> length (take BATCH_SIZE cursor)"
      by (cases cursor) (simp_all add: BATCH_SIZE_def)
    show ?thesis
    proof (cases "now (Suc k) - now 0 > of_int timeout")
      case True
      with False len show ?thesis by (subst drain.simps) (simp add: Let_def)
    next
      case over: False
      have "length (all_results @ map (row_dict columns) (take BATCH_SIZE cursor))
              + min 1 (length (drop BATCH_SIZE cursor))
            \<le> length (fst (drain columns now timeout (Suc k) (drop BATCH_SIZE cursor)
                   (all_results @ map (row_dict columns) (take BATCH_SIZE cursor))))"
        using 1 [OF refl False refl refl over] .
      with False over len show ?thesis by (subst drain.simps) (simp add: Let_def)
    qed
  qed
qed

lemma drain_no_rows: "fst (drain columns now timeout k [] all_results) = all_results"
  by (subst drain.simps) simp

lemma drain_result_empty_iff:
  "fst (drain columns now timeout k rows []) = [] \<longleftrightarrow> rows = []"
proof
  assume "fst (drain columns now timeout k rows []) = []"
  with drain_length [of "[]" rows columns now timeout k] show "rows = []"
    by (cases rows) simp_all
next
  assume "rows = []"
  then show "fst (drain columns now timeout k rows []) = []"
    by (simp add: drain_no_rows)
qed

lemma tfa_execute_sql_exit_code: "exit_code (tfa_execute_sql args env w) = 0"
  unfolding tfa_execute_sql_def
  by (simp add: Let_def split: option.split exec_answer.split)

lemma tfa_default_exit_code:
  "exit_code (tfa_default L args env sheet_names schema_str sample_str_sql w) =
     (if is_select (extract_sql_query (env_sql_reply env))
         \<and> (\<exists>columns rows. env_exec env = ResultSet columns rows \<and> rows \<noteq> [])
      then 0 else 1)"
  unfolding tfa_default_def
  by (cases "env_exec env") (simp_all add: Let_def drain_result_empty_iff)

lemma tfa_default_rejects:
  "\<not> is_select (extract_sql_query (env_sql_reply env)) \<Longrightarrow>
   executed (tfa_default L args env sheet_names schema_str sample_str_sql w) = []
   \<and> exit_code (tfa_default L args env sheet_names schema_str sample_str_sql w) = 1"
  unfolding tfa_default_def by (simp add: Let_def)

lemma tfa_default_executed:
  "q \<in> set (executed (tfa_default L args env sheet_names schema_str sample_str_sql w)) \<Longrightarrow>
   q = extract_sql_query (env_sql_reply env) \<and> is_select q"
  unfolding tfa_default_def
  by (cases "env_exec env") (auto simp add: Let_def split: if_splits)

lemma tfa_main_default_mode_only_select:
  assumes "\<not> arg_execute_sql args"
    and "q \<in> set (executed (tfa_main L digest args env w))"
  shows "is_select q"
proof -
  obtain r w1 where p: "prepare TableFileAnswerPy digest (arg_cache args) (arg_file_path args) env w = (r, w1)"
    by (cases "prepare TableFileAnswerPy digest (arg_cache args) (arg_file_path args) env w")
  show ?thesis
  proof (cases r)
    case (Inl e)
    with assms p show ?thesis unfolding tfa_main_def by simp
  next
    case (Inr ctx)
    obtain sheet_names columns_info sample_data where c: "ctx = (sheet_names, columns_info, sample_data)"
      by (cases ctx)
    from assms p Inr c show ?thesis
      unfolding tfa_main_def
      by (auto simp add: Let_def split: if_splits dest: tfa_default_executed)
  qed
qed

lemma answer_main_executes_reply:
  assumes "fst (prepare AnswerPy digest (ans_cache args) (ans_file_path args) env w) = Inr ctx"
  shows "executed (answer_main digest args env w) = [extract_gpt_sql (env_sql_reply env)]"
proof -
  obtain w1 where p: "prepare AnswerPy digest (ans_cache args) (ans_file_path args) env w = (Inr ctx, w1)"
    using assms by (cases "prepare AnswerPy digest (ans_cache args) (ans_file_path args) env w") simp
  obtain sheet_names columns_info sample_data where c: "ctx = (sheet_names, columns_info, sample_data)"
    by (cases ctx)
  show ?thesis
    unfolding answer_main_def p c
    by (cases "env_exec env") (simp_all add: Let_def)
qed

lemma prepare_example:
  "fst (prepare s digest False ''/tmp/a/data.xlsx'' (example_env reply answer) two_copies)
     = Inr ([''S''], [(''v'', ''INTEGER''), (''_sheet_name'', ''TEXT'')],
            [''(1, '' @ squote @ ''S'' @ squote @ '')''])"
  by (cases s)
     (simp_all add: prepare.simps example_env_def two_copies_def empty_world_def sheet_v1_def build_dataframe_def
        set_column_def Let_def numeral_3_eq_3 chunk_size_def to_sql_replace_def)

lemma prepare_dated:
  "fst (prepare s digest False ''/tmp/a/data.xlsx'' (dated_env reply answer) two_copies)
     = Inr ([''S''], [(''Date'', ''TEXT''), (''_sheet_name'', ''TEXT'')], [dated_sample])"
  by (cases s)
     (simp_all add: prepare.simps dated_env_def two_copies_def empty_world_def dated_sheet_def build_dataframe_def
        set_column_def Let_def numeral_3_eq_3 chunk_size_def to_sql_replace_def)

lemma tfa_main_default_mode:
  assumes "fst (prepare TableFileAnswerPy digest (arg_cache args) (arg_file_path args) env w)
             = Inr (sheet_names, columns_info, sample_data)"
    and "\<not> arg_analyze_only args" "\<not> arg_sql_only args" "\<not> arg_execute_sql args"
  shows "tfa_main L digest args env w =
           tfa_default L args env sheet_names (schema_str_of columns_info) (join ''\<newline>'' sample_data)
             (snd (prepare TableFileAnswerPy digest (arg_cache args) (arg_file_path args) env w))"
proof -
  obtain w1 where p: "prepare TableFileAnswerPy digest (arg_cache args) (arg_file_path args) env w
          = (Inr (sheet_names, columns_info, sample_data), w1)"
    using assms(1)
    by (cases "prepare TableFileAnswerPy digest (arg_cache args) (arg_file_path args) env w") simp
  show ?thesis
    unfolding tfa_main_def p using assms(2-4) by (simp add: Let_def)
qed

text \<open>
  The exit code of every run, by what the run meets. Both scripts end
  with 1 when the file is missing or when reading it, staging it or reading the schema back
  fails. After that \<^verbatim>\<open>table_file_answer.py\<close> ends with 0 in the modes
  \<^verbatim>\<open>--analyze-only\<close>, \<^verbatim>\<open>--sql-only\<close> and \<^verbatim>\<open>--execute-sql\<close> whatever follows, and in the
  default mode with 0 exactly when the extracted statement begins with \<^verbatim>\<open>SELECT\<close> and
  its execution returns at least one row: an empty result ends with 1 there, like a
  rejected reply or a failed execution. \<^verbatim>\<open>answer.py\<close> ends with 0 exactly when the
  execution returns a result set, empty or not.
\<close>

lemma exit_code_by_outcome:
  "exit_code (tfa_main L digest args env w) =
     (case fst (prepare TableFileAnswerPy digest (arg_cache args) (arg_file_path args) env w) of
        Inl e \<Rightarrow> 1
      | Inr ctx \<Rightarrow>
          if arg_analyze_only args \<or> arg_sql_only args \<or> arg_execute_sql args then 0
          else if is_select (extract_sql_query (env_sql_reply env))
                  \<and> (\<exists>columns rows. env_exec env = ResultSet columns rows \<and> rows \<noteq> [])
          then 0 else 1)
   \<and> exit_code (answer_main digest a_args a_env a_w) =
     (case fst (prepare AnswerPy digest (ans_cache a_args) (ans_file_path a_args) a_env a_w) of
        Inl e \<Rightarrow> 1
      | Inr ctx \<Rightarrow> if \<exists>columns rows. env_exec a_env = ResultSet columns rows then 0 else 1)"
proof
  obtain r w1 where p: "prepare TableFileAnswerPy digest (arg_cache args) (arg_file_path args) env w = (r, w1)"
    by (cases "prepare TableFileAnswerPy digest (arg_cache args) (arg_file_path args) env w")
  show "exit_code (tfa_main L digest args env w) =
     (case fst (prepare TableFileAnswerPy digest (arg_cache args) (arg_file_path args) env w) of
        Inl e \<Rightarrow> 1
      | Inr ctx \<Rightarrow>
          if arg_analyze_only args \<or> arg_sql_only args \<or> arg_execute_sql args then 0
          else if is_select (extract_sql_query (env_sql_reply env))
                  \<and> (\<exists>columns rows. env_exec env = ResultSet columns rows \<and> rows \<noteq> [])
          then 0 else 1)"
  proof (cases r)
    case (Inl e)
    with p show ?thesis unfolding tfa_main_def by simp
  next
    case (Inr ctx)
    obtain sheet_names columns_info sample_data where c: "ctx = (sheet_names, columns_info, sample_data)"
      by (cases ctx)
    show ?thesis
      unfolding tfa_main_def p Inr c
      by (simp add: Let_def tfa_execute_sql_exit_code tfa_default_exit_code)
  qed
next
  obtain r w1 where p: "prepare AnswerPy digest (ans_cache a_args) (ans_file_path a_args) a_env a_w = (r, w1)"
    by (cases "prepare AnswerPy digest (ans_cache a_args) (ans_file_path a_args) a_env a_w")
  show "exit_code (answer_main digest a_args a_env a_w) =
     (case fst (prepare AnswerPy digest (ans_cache a_args) (ans_file_path a_args) a_env a_w) of
        Inl e \<Rightarrow> 1
      | Inr ctx \<Rightarrow> if \<exists>columns rows. env_exec a_env = ResultSet columns rows then 0 else 1)"
  proof (cases r)
    case (Inl e)
    with p show ?thesis unfolding answer_main_def by simp
  next
    case (Inr ctx)
    obtain sheet_names columns_info sample_data where c: "ctx = (sheet_names, columns_info, sample_data)"
      by (cases ctx)
    show ?thesis
      unfolding answer_main_def p Inr c
      by (cases "env_exec a_env") (simp_all add: Let_def)
  qed
qed

text \<open>
  C5 fails on the code. The query returns no row. \<^verbatim>\<open>table_file_answer.py\<close> in its
  default mode asks the model for a clarification and ends with exit code 1, as after an
  error. The same script in \<^verbatim>\<open>--execute-sql\<close> mode, given the same statement, asks for the
  clarification and ends with exit code 0, and \<^verbatim>\<open>answer.py\<close> ends with exit code 0 too.
\<close>

theorem empty_result_exit_codes:
  "exit_code (tfa_main ascii_wording rev example_args
      (example_env ''SELECT * FROM data WHERE v > 5'' (ResultSet [''v'', ''_sheet_name''] [])) two_copies) = 1
   \<and> last (calls (tfa_main ascii_wording rev example_args
      (example_env ''SELECT * FROM data WHERE v > 5'' (ResultSet [''v'', ''_sheet_name''] [])) two_copies))
     = ClarifyEmptyCall
   \<and> executed (tfa_main ascii_wording rev example_args
      (example_env ''SELECT * FROM data WHERE v > 5'' (ResultSet [''v'', ''_sheet_name''] [])) two_copies)
     = [''SELECT * FROM data WHERE v > 5'']
   \<and> exit_code (tfa_main ascii_wording rev
      (example_args\<lparr>arg_execute_sql := True, arg_sql := Some ''SELECT * FROM data WHERE v > 5''\<rparr>)
      (example_env ''SELECT * FROM data WHERE v > 5'' (ResultSet [''v'', ''_sheet_name''] [])) two_copies) = 0
   \<and> calls (tfa_main ascii_wording rev
      (example_args\<lparr>arg_execute_sql := True, arg_sql := Some ''SELECT * FROM data WHERE v > 5''\<rparr>)
      (example_env ''SELECT * FROM data WHERE v > 5'' (ResultSet [''v'', ''_sheet_name''] [])) two_copies)
     = [ClarifyEmptyCall]
   \<and> exit_code (answer_main rev example_answer_args
      (example_env ''SELECT * FROM data WHERE v > 5'' (ResultSet [''v'', ''_sheet_name''] [])) two_copies) = 0"
proof -
  let ?env = "example_env ''SELECT * FROM data WHERE v > 5'' (ResultSet [''v'', ''_sheet_name''] [])"
  let ?x = "example_args\<lparr>arg_execute_sql := True, arg_sql := Some ''SELECT * FROM data WHERE v > 5''\<rparr>"
  have q: "extract_sql_query ''SELECT * FROM data WHERE v > 5'' = ''SELECT * FROM data WHERE v > 5''"
    by code_simp
  have s: "is_select ''SELECT * FROM data WHERE v > 5''"
    by code_simp
  have a: "arg_cache example_args = False" "arg_file_path example_args = ''/tmp/a/data.xlsx''"
    "\<not> arg_analyze_only example_args" "\<not> arg_sql_only example_args" "\<not> arg_execute_sql example_args"
    by (simp_all add: example_args_def)
  have b: "ans_cache example_answer_args = False" "ans_file_path example_answer_args = ''/tmp/a/data.xlsx''"
    by (simp_all add: example_answer_args_def)
  have e: "env_sql_reply ?env = ''SELECT * FROM data WHERE v > 5''"
    "env_exec ?env = ResultSet [''v'', ''_sheet_name''] []"
    by (simp_all add: example_env_def)
  have 1: "exit_code (tfa_main ascii_wording rev example_args ?env two_copies) = 1
    \<and> last (calls (tfa_main ascii_wording rev example_args ?env two_copies)) = ClarifyEmptyCall
    \<and> executed (tfa_main ascii_wording rev example_args ?env two_copies) = [''SELECT * FROM data WHERE v > 5'']"
    unfolding tfa_main_default_mode [where args = example_args, unfolded a, OF prepare_example a(3-5)]
    unfolding tfa_default_def e q
    by (simp add: s Let_def drain_no_rows)
  define w1 where "w1 = snd (prepare TableFileAnswerPy rev False ''/tmp/a/data.xlsx'' ?env two_copies)"
  have p: "prepare TableFileAnswerPy rev False ''/tmp/a/data.xlsx'' ?env two_copies
      = (Inr ([''S''], [(''v'', ''INTEGER''), (''_sheet_name'', ''TEXT'')], [''(1, '' @ squote @ ''S'' @ squote @ '')'']), w1)"
    unfolding w1_def
    using prepare_example [of TableFileAnswerPy rev "''SELECT * FROM data WHERE v > 5''" "ResultSet [''v'', ''_sheet_name''] []"]
    by (metis prod.collapse)
  have x: "arg_cache ?x = False" "arg_file_path ?x = ''/tmp/a/data.xlsx''"
    "\<not> arg_analyze_only ?x" "\<not> arg_sql_only ?x" "arg_execute_sql ?x"
    "arg_sql ?x = Some ''SELECT * FROM data WHERE v > 5''"
    by (simp_all add: example_args_def)
  have 2: "exit_code (tfa_main ascii_wording rev ?x ?env two_copies) = 0
    \<and> calls (tfa_main ascii_wording rev ?x ?env two_copies) = [ClarifyEmptyCall]"
    unfolding tfa_main_def x p
    by (simp add: Let_def tfa_execute_sql_def x e drain_no_rows)
  have 3: "exit_code (answer_main rev example_answer_args ?env two_copies) = 0"
    using exit_code_by_outcome [of L rev example_args ?env two_copies example_answer_args ?env two_copies]
    by (simp add: b e prepare_example)
  from 1 2 3 show ?thesis by simp
qed

text \<open>
  C2 fails on \<^verbatim>\<open>answer.py\<close>. The model answers \<^verbatim>\<open>DROP TABLE data\<close>, which does not
  begin with \<^verbatim>\<open>SELECT\<close>. \<^verbatim>\<open>answer.py\<close> passes the statement to \<^verbatim>\<open>cursor.execute\<close>;
  \<^verbatim>\<open>table_file_answer.py\<close> in its default mode, given the same reply, executes nothing
  and ends with exit code 1.
\<close>

theorem answer_py_executes_non_select:
  "\<not> is_select (extract_gpt_sql ''DROP TABLE data'')
   \<and> executed (answer_main rev example_answer_args (example_env ''DROP TABLE data'' NoResultSet) two_copies)
     = [''DROP TABLE data'']
   \<and> executed (tfa_main ascii_wording rev example_args (example_env ''DROP TABLE data'' NoResultSet) two_copies)
     = []
   \<and> exit_code (tfa_main ascii_wording rev example_args (example_env ''DROP TABLE data'' NoResultSet) two_copies)
     = 1"
proof -
  have q: "extract_gpt_sql ''DROP TABLE data'' = ''DROP TABLE data''"
    "extract_sql_query ''DROP TABLE data'' = ''DROP TABLE data''"
    by code_simp+
  have s: "\<not> is_select ''DROP TABLE data''"
    by code_simp
  have a: "arg_cache example_args = False" "arg_file_path example_args = ''/tmp/a/data.xlsx''"
    "\<not> arg_analyze_only example_args" "\<not> arg_sql_only example_args" "\<not> arg_execute_sql example_args"
    by (simp_all add: example_args_def)
  have b: "ans_cache example_answer_args = False" "ans_file_path example_answer_args = ''/tmp/a/data.xlsx''"
    by (simp_all add: example_answer_args_def)
  have e: "env_sql_reply (example_env ''DROP TABLE data'' NoResultSet) = ''DROP TABLE data''"
    by (simp add: example_env_def)
  have 1: "executed (answer_main rev example_answer_args (example_env ''DROP TABLE data'' NoResultSet) two_copies)
     = [''DROP TABLE data'']"
    using answer_main_executes_reply [where args = example_answer_args, unfolded b, OF prepare_example]
    by (simp add: e q)
  have 2: "executed (tfa_main ascii_wording rev example_args (example_env ''DROP TABLE data'' NoResultSet) two_copies) = []
    \<and> exit_code (tfa_main ascii_wording rev example_args (example_env ''DROP TABLE data'' NoResultSet) two_copies) = 1"
    unfolding tfa_main_default_mode [where args = example_args, unfolded a, OF prepare_example a(3-5)]
    by (rule tfa_default_rejects) (simp add: e q s)
  from 1 2 s q show ?thesis by simp
qed

lemma generate_sql_for_date_filters_example:
  "generate_sql_for_date_filters L p (schema_str_of [(''Date'', ''TEXT''), (''_sheet_name'', ''TEXT'')])
     = Inr (p @ date_hint L [''Date''])"
proof -
  have 1: "split (schema_str_of [(''Date'', ''TEXT''), (''_sheet_name'', ''TEXT'')]) ''\<newline>''
             = ['' - Date (TEXT)'', '' - _sheet_name (TEXT)'']"
    by code_simp
  have 2: "date_columns_of ['' - Date (TEXT)'', '' - _sheet_name (TEXT)''] = Inr [''Date'']"
    by code_simp
  show ?thesis
    unfolding generate_sql_for_date_filters_def 1 2 by simp
qed

text \<open>
  C8 fails on the code. The schema block has a column named \<^verbatim>\<open>Date\<close>, so
  \<^verbatim>\<open>generate_sql_for_date_filters\<close> would append its guidance to any prompt; but
  \<^verbatim>\<open>main\<close> never calls it: the run asks the model for the columns and then sends the
  SQL prompt as step 5B built it, and no call of the run carries that prompt with the
  guidance appended.
\<close>

theorem date_hint_never_sent:
  "generate_sql_for_date_filters L p (schema_str_of [(''Date'', ''TEXT''), (''_sheet_name'', ''TEXT'')])
     = Inr (p @ date_hint L [''Date''])
   \<and> p @ date_hint L [''Date''] \<noteq> p
   \<and> take 2 (calls (tfa_main L digest example_args (dated_env reply answer) two_copies))
     = [ColumnsCall,
        SqlCall (sql_prompt_of L (w_rules_default L) ''Date'' ''all rows''
          (schema_str_of [(''Date'', ''TEXT''), (''_sheet_name'', ''TEXT'')]) dated_sample [''S''])]
   \<and> SqlCall (sql_prompt_of L (w_rules_default L) ''Date'' ''all rows''
          (schema_str_of [(''Date'', ''TEXT''), (''_sheet_name'', ''TEXT'')]) dated_sample [''S'']
        @ date_hint L [''Date''])
     \<notin> set (calls (tfa_main L digest example_args (dated_env reply answer) two_copies))"
proof -
  let ?p0 = "sql_prompt_of L (w_rules_default L) ''Date'' ''all rows''
          (schema_str_of [(''Date'', ''TEXT''), (''_sheet_name'', ''TEXT'')]) dated_sample [''S'']"
  have a: "arg_cache example_args = False" "arg_file_path example_args = ''/tmp/a/data.xlsx''"
    "\<not> arg_analyze_only example_args" "\<not> arg_sql_only example_args" "\<not> arg_execute_sql example_args"
    by (simp_all add: example_args_def)
  have h: "date_hint L [''Date''] \<noteq> []"
    by (simp add: date_hint_def)
  have e: "env_columns_reply (dated_env reply answer) = ''Date''" "arg_query example_args = ''all rows''"
    by (simp_all add: dated_env_def example_args_def)
  have c: "calls (tfa_main L digest example_args (dated_env reply answer) two_copies)
             = [ColumnsCall, SqlCall ?p0]
           \<or> (\<exists>k. k \<in> {ClarifyTimeoutCall, ClarifyErrorCall, ClarifyEmptyCall}
                \<and> calls (tfa_main L digest example_args (dated_env reply answer) two_copies)
                    = [ColumnsCall, SqlCall ?p0, k])
           \<or> (\<exists>n. calls (tfa_main L digest example_args (dated_env reply answer) two_copies)
                    = [ColumnsCall, SqlCall ?p0] @ save_calls (dated_env reply answer) n)"
    unfolding tfa_main_default_mode [where args = example_args, unfolded a, OF prepare_dated a(3-5)]
    unfolding tfa_default_def e
    by (cases "env_exec (dated_env reply answer)") (auto simp add: Let_def)
  have s: "SqlCall x \<notin> set (save_calls (dated_env reply answer) n)" for x n
    by (simp add: save_calls_def split: save_answer.split)
  from c have 3: "take 2 (calls (tfa_main L digest example_args (dated_env reply answer) two_copies))
                    = [ColumnsCall, SqlCall ?p0]"
    by auto
  from c h s have 4: "SqlCall (?p0 @ date_hint L [''Date''])
                       \<notin> set (calls (tfa_main L digest example_args (dated_env reply answer) two_copies))"
    by auto
  from generate_sql_for_date_filters_example h 3 4 show ?thesis by simp
qed

section \<open>Properties of the session state\<close>

lemma reachable_handle_all: "reachable marker b \<Longrightarrow> reachable marker (handle_all marker es b)"
proof (induction es arbitrary: b)
  case Nil
  then show ?case by simp
next
  case (Cons ue es)
  obtain user_id e where "ue = (user_id, e)" by (cases ue)
  with Cons show ?case by (simp add: reachable_handle)
qed

lemma chat_ready_reset: "chat_ready b \<Longrightarrow> chat_ready (reset user_id b)"
  unfolding chat_ready_def reset_def by auto

lemma chat_ready_excel_file_selected:
  "chat_ready b \<Longrightarrow> chat_ready (excel_file_selected user_id file_id file_name b)"
  unfolding chat_ready_def excel_file_selected_def
  by (auto simp add: Let_def split: option.splits)

lemma chat_ready_choose_action:
  "chat_ready b \<Longrightarrow> chat_ready (snd (choose_action action_type user_id b))"
  unfolding chat_ready_def choose_action_def
  by (auto simp add: Let_def split: option.splits)

lemma chat_ready_new_query:
  "chat_ready b \<Longrightarrow> chat_ready (snd (new_query user_id b))"
  unfolding chat_ready_def new_query_def
  by (auto simp add: Let_def split: option.splits)

lemma chat_ready_end_chat:
  "chat_ready b \<Longrightarrow> chat_ready (snd (end_chat user_id b))"
  unfolding chat_ready_def end_chat_def
  by (auto simp add: Let_def split: option.splits)

lemma generate_report_from_chat_state: "snd (generate_report_from_chat user_id b) = b"
  unfolding generate_report_from_chat_def
  by (simp split: option.split)

lemma chat_ready_button:
  assumes "chat_ready b"
  shows "chat_ready (snd (button_callback data drive_name user_id b))"
proof -
  have x: "chat_ready (snd (case split1 ''_'' dd of
             [p0, file_id] \<Rightarrow>
               (case drive_name of
                  None \<Rightarrow> (None, b)
                | Some file_name \<Rightarrow> (None, excel_file_selected user_id file_id file_name b))
           | _ \<Rightarrow> (None, b)))" for dd
    using assms by (simp add: chat_ready_excel_file_selected split: list.split option.split)
  show ?thesis
    unfolding button_callback_def
    using assms
    by (simp add: chat_ready_reset chat_ready_choose_action chat_ready_new_query chat_ready_end_chat
          generate_report_from_chat_state x)
qed

lemma chat_ready_process_chat_query:
  "chat_ready b \<Longrightarrow> chat_ready (snd (process_chat_query marker user_query result user_id b))"
  unfolding chat_ready_def process_chat_query_def
  by (auto simp add: Let_def split: option.splits)

lemma chat_ready_set_session:
  assumes "chat_ready b" and "user_states b user_id \<noteq> Some STATE_CHAT_MODE"
  shows "chat_ready (b\<lparr>user_data := (user_data b)(user_id \<mapsto> d)\<rparr>)"
  using assms unfolding chat_ready_def by auto

lemma chat_ready_start_chat_mode:
  assumes "chat_ready b" and "ud_file_id d \<noteq> None" and "ud_file_name d \<noteq> None"
    and "ud_file_path d \<noteq> None"
  shows "chat_ready (start_chat_mode marker file_name user_query result user_id d b)"
  using assms unfolding chat_ready_def start_chat_mode_def
  by (auto simp add: Let_def)

lemma chat_ready_text:
  assumes "chat_ready b"
  shows "chat_ready (snd (handle_text_input marker user_query download result user_id b))"
proof (cases "user_states b user_id")
  case None
  with assms show ?thesis by (simp add: handle_text_input_def)
next
  case (Some s)
  show ?thesis
  proof (cases s)
    case STATE_IDLE
    with Some assms show ?thesis by (simp add: handle_text_input_def)
  next
    case STATE_CHAT_MODE
    with Some assms show ?thesis by (simp add: handle_text_input_def chat_ready_process_chat_query)
  next
    case STATE_WAITING_QUERY
    with Some have w: "user_states b user_id \<noteq> Some STATE_CHAT_MODE" by simp
    show ?thesis
    proof (cases "user_data b user_id")
      case None
      with Some STATE_WAITING_QUERY assms show ?thesis by (simp add: handle_text_input_def)
    next
      case d: (Some d)
      let ?d1 = "d\<lparr>ud_query := Some user_query\<rparr>"
      let ?b1 = "b\<lparr>user_data := (user_data b)(user_id \<mapsto> ?d1)\<rparr>"
      have b1: "chat_ready ?b1" by (rule chat_ready_set_session [OF assms w])
      have w1: "user_states ?b1 user_id \<noteq> Some STATE_CHAT_MODE" using w by simp
      have b2: "chat_ready (?b1\<lparr>user_data := (user_data ?b1)(user_id \<mapsto> d2)\<rparr>)" for d2
        by (rule chat_ready_set_session [OF b1 w1])
      have c: "chat_ready (start_chat_mode marker file_name user_query result user_id
                 (?d1\<lparr>ud_file_path := Some p\<rparr>)
                 (?b1\<lparr>user_data := (user_data ?b1)(user_id \<mapsto> ?d1\<lparr>ud_file_path := Some p\<rparr>)\<rparr>))"
        if "ud_file_id d \<noteq> None" "ud_file_name d \<noteq> None" for file_name p
        by (rule chat_ready_start_chat_mode [OF b2]) (use that in simp_all)
      show ?thesis
      proof (cases "ud_file_id d = None")
        case True
        with Some STATE_WAITING_QUERY d assms show ?thesis by (simp add: handle_text_input_def)
      next
        case False
        then obtain file_id where f: "ud_file_id d = Some file_id" by auto
        show ?thesis
        proof (cases "ud_file_name d")
          case None
          with Some STATE_WAITING_QUERY d f b1 show ?thesis
            by (simp add: handle_text_input_def Let_def)
        next
          case n: (Some file_name)
          show ?thesis
          proof (cases "ud_action_type d")
            case None
            with Some STATE_WAITING_QUERY d f n b1 show ?thesis
              by (simp add: handle_text_input_def Let_def)
          next
            case a: (Some action_type)
            show ?thesis
            proof (cases download)
              case None
              with Some STATE_WAITING_QUERY d f n a b1 show ?thesis
                by (simp add: handle_text_input_def Let_def)
            next
              case p: (Some p)
              from False n have "chat_ready (start_chat_mode marker file_name user_query result user_id
                 (?d1\<lparr>ud_file_path := Some p\<rparr>)
                 (?b1\<lparr>user_data := (user_data ?b1)(user_id \<mapsto> ?d1\<lparr>ud_file_path := Some p\<rparr>)\<rparr>))"
                by (intro c) simp_all
              with Some STATE_WAITING_QUERY d f n a p b2 [of "?d1\<lparr>ud_file_path := Some p\<rparr>"]
              show ?thesis
                by (simp add: handle_text_input_def Let_def)
            qed
          qed
        qed
      qed
    qed
  qed
qed

lemma chat_ready_handle: "chat_ready b \<Longrightarrow> chat_ready (handle marker user_id e b)"
  by (cases e) (simp_all add: chat_ready_reset chat_ready_button chat_ready_text start_def cancel_def)

lemma reachable_chat_ready: "reachable marker b \<Longrightarrow> chat_ready b"
proof (induction rule: reachable.induct)
  case reachable_initial
  show ?case by (simp add: chat_ready_def initial_bot_def)
next
  case (reachable_handle b user_id e)
  then show ?case by (simp add: chat_ready_handle)
qed

lemma cancel_state: "user_states (cancel u b) u = Some STATE_IDLE"
  by (simp add: cancel_def reset_def)

lemma cancel_data: "user_data (cancel u b) u = map_option (\<lambda>d. empty_session) (user_data b u)"
  by (cases "user_data b u") (auto simp add: cancel_def reset_def)

lemma chat_started_state:
  "user_states chat_started 7 = Some STATE_CHAT_MODE"
  by code_simp

text \<open>
  C9. In every state the bot can reach, a user in \<^verbatim>\<open>chat_mode\<close> has a session with the
  file id, the file name and the file path set; the button \<^verbatim>\<open>end_chat\<close> then raises
  nothing, puts the user in \<^verbatim>\<open>idle\<close> and removes the chat history from the session,
  whose file id, file name and file path stay as they were. \<^verbatim>\<open>cancel\<close>, in any state
  \<open>b0\<close> whatever, puts the user in \<^verbatim>\<open>idle\<close> and replaces an existing session by the
  empty dictionary.
\<close>

theorem end_chat_and_cancel:
  assumes "reachable marker b" and "user_states b user_id = Some STATE_CHAT_MODE"
  shows "(\<exists>d d'. user_data b user_id = Some d
            \<and> ud_file_id d \<noteq> None \<and> ud_file_name d \<noteq> None \<and> ud_file_path d \<noteq> None
            \<and> fst (button_callback ''end_chat'' drive_name user_id b) = None
            \<and> user_states (snd (button_callback ''end_chat'' drive_name user_id b)) user_id = Some STATE_IDLE
            \<and> user_data (snd (button_callback ''end_chat'' drive_name user_id b)) user_id = Some d'
            \<and> ud_chat_history d' = None
            \<and> ud_file_id d' = ud_file_id d \<and> ud_file_name d' = ud_file_name d
            \<and> ud_file_path d' = ud_file_path d)
       \<and> user_states (cancel u b0) u = Some STATE_IDLE
       \<and> user_data (cancel u b0) u = map_option (\<lambda>d. empty_session) (user_data b0 u)"
proof -
  from reachable_chat_ready [OF assms(1)] assms(2)
  obtain d where d: "user_data b user_id = Some d" "ud_file_id d \<noteq> None" "ud_file_name d \<noteq> None"
      "ud_file_path d \<noteq> None"
    unfolding chat_ready_def by blast
  have e: "button_callback ''end_chat'' drive_name user_id b = end_chat user_id b"
    by (simp add: button_callback_def startswith_def)
  have "fst (end_chat user_id b) = None"
    "user_states (snd (end_chat user_id b)) user_id = Some STATE_IDLE"
    "user_data (snd (end_chat user_id b)) user_id = Some (d\<lparr>ud_chat_history := None\<rparr>)"
    using d(1) by (simp_all add: end_chat_def)
  with d e have "\<exists>d d'. user_data b user_id = Some d
            \<and> ud_file_id d \<noteq> None \<and> ud_file_name d \<noteq> None \<and> ud_file_path d \<noteq> None
            \<and> fst (button_callback ''end_chat'' drive_name user_id b) = None
            \<and> user_states (snd (button_callback ''end_chat'' drive_name user_id b)) user_id = Some STATE_IDLE
            \<and> user_data (snd (button_callback ''end_chat'' drive_name user_id b)) user_id = Some d'
            \<and> ud_chat_history d' = None
            \<and> ud_file_id d' = ud_file_id d \<and> ud_file_name d' = ud_file_name d
            \<and> ud_file_path d' = ud_file_path d"
    by (intro exI [of _ d] exI [of _ "d\<lparr>ud_chat_history := None\<rparr>"]) simp
  then show ?thesis
    using cancel_state cancel_data by blast
qed

theorem end_chat_and_cancel_witness:
  "reachable ''=== RESULT ==='' chat_started
   \<and> user_states chat_started 7 = Some STATE_CHAT_MODE
   \<and> (\<exists>d d'. user_data chat_started 7 = Some d
            \<and> ud_file_id d \<noteq> None \<and> ud_file_name d \<noteq> None \<and> ud_file_path d \<noteq> None
            \<and> fst (button_callback ''end_chat'' None 7 chat_started) = None
            \<and> user_states (snd (button_callback ''end_chat'' None 7 chat_started)) 7 = Some STATE_IDLE
            \<and> user_data (snd (button_callback ''end_chat'' None 7 chat_started)) 7 = Some d'
            \<and> ud_chat_history d' = None
            \<and> ud_file_id d' = ud_file_id d \<and> ud_file_name d' = ud_file_name d
            \<and> ud_file_path d' = ud_file_path d)
   \<and> user_states (cancel 7 chat_started) 7 = Some STATE_IDLE
   \<and> user_data (cancel 7 chat_started) 7 = map_option (\<lambda>d. empty_session) (user_data chat_started 7)"
proof -
  have r: "reachable ''=== RESULT ==='' chat_started"
    unfolding chat_started_def by (rule reachable_handle_all) (rule reachable_initial)
  from end_chat_and_cancel [OF r chat_started_state, of None 7 chat_started] r chat_started_state
  show ?thesis by blast
qed

end
